theory Spec2Isabelle
  imports Complex_Main
begin

section \<open>Floating-point cell values\<close>

text \<open>
  Raster cells and the numeric parameters are Python/numpy floats. They are modelled as
  reals extended with the three non-finite values, so that \<open>np.isfinite\<close>,
  \<open>np.log\<close> of a non-positive number and comparisons with NaN behave as in the
  program. The float64 operations are exact: their rounding, their overflow to infinity
  and the sign of zero are not represented, and a zero divisor counts as \<open>+0\<close>. The
  casts to float32, which the program writes out, are represented: they round to the
  nearest float32 number.
\<close>

datatype fval = Fl real | PInf | NInf | NaN

fun np_isfinite :: "fval \<Rightarrow> bool" where
  "np_isfinite (Fl a) = True"
| "np_isfinite PInf = False"
| "np_isfinite NInf = False"
| "np_isfinite NaN = False"

text \<open>\<open>a == b\<close>: false as soon as one side is NaN.\<close>

fun fl_eq :: "fval \<Rightarrow> fval \<Rightarrow> bool" where
  "fl_eq NaN b = False"
| "fl_eq a NaN = False"
| "fl_eq a b = (a = b)"

text \<open>\<open>a < b\<close>, \<open>a > b\<close>, \<open>a <= b\<close>: false as soon as one side is NaN.\<close>

fun fl_lt :: "fval \<Rightarrow> fval \<Rightarrow> bool" where
  "fl_lt NaN b = False"
| "fl_lt a NaN = False"
| "fl_lt (Fl a) (Fl b) = (a < b)"
| "fl_lt (Fl a) PInf = True"
| "fl_lt (Fl a) NInf = False"
| "fl_lt PInf b = False"
| "fl_lt NInf NInf = False"
| "fl_lt NInf b = True"

definition fl_gt :: "fval \<Rightarrow> fval \<Rightarrow> bool" where
  "fl_gt a b = fl_lt b a"

definition fl_le :: "fval \<Rightarrow> fval \<Rightarrow> bool" where
  "fl_le a b = (fl_lt a b \<or> fl_eq a b)"

fun fl_neg :: "fval \<Rightarrow> fval" where
  "fl_neg (Fl a) = Fl (- a)"
| "fl_neg PInf = NInf"
| "fl_neg NInf = PInf"
| "fl_neg NaN = NaN"

fun fl_add :: "fval \<Rightarrow> fval \<Rightarrow> fval" where
  "fl_add NaN b = NaN"
| "fl_add a NaN = NaN"
| "fl_add (Fl a) (Fl b) = Fl (a + b)"
| "fl_add PInf NInf = NaN"
| "fl_add NInf PInf = NaN"
| "fl_add PInf b = PInf"
| "fl_add NInf b = NInf"
| "fl_add (Fl a) b = b"

definition fl_sub :: "fval \<Rightarrow> fval \<Rightarrow> fval" where
  "fl_sub a b = fl_add a (fl_neg b)"

text \<open>The sign of a value that is not NaN: \<open>-1\<close>, \<open>0\<close> or \<open>1\<close>.\<close>

fun fl_sign :: "fval \<Rightarrow> real" where
  "fl_sign (Fl a) = sgn a"
| "fl_sign PInf = 1"
| "fl_sign NInf = - 1"
| "fl_sign NaN = 0"

definition signed_inf :: "real \<Rightarrow> fval" where
  "signed_inf s = (if s = 0 then NaN else if 0 < s then PInf else NInf)"

fun fl_mul :: "fval \<Rightarrow> fval \<Rightarrow> fval" where
  "fl_mul NaN b = NaN"
| "fl_mul a NaN = NaN"
| "fl_mul (Fl a) (Fl b) = Fl (a * b)"
| "fl_mul a b = signed_inf (fl_sign a * fl_sign b)"

fun fl_div :: "fval \<Rightarrow> fval \<Rightarrow> fval" where
  "fl_div NaN b = NaN"
| "fl_div a NaN = NaN"
| "fl_div (Fl a) (Fl b) = (if b = 0 then signed_inf (sgn a) else Fl (a / b))"
| "fl_div (Fl a) b = Fl 0"
| "fl_div a (Fl b) = signed_inf (fl_sign a * (if b < 0 then - 1 else 1))"
| "fl_div a b = NaN"

fun np_log :: "fval \<Rightarrow> fval" where
  "np_log (Fl a) = (if 0 < a then Fl (ln a) else if a = 0 then NInf else NaN)"
| "np_log PInf = PInf"
| "np_log NInf = NaN"
| "np_log NaN = NaN"

fun np_exp :: "fval \<Rightarrow> fval" where
  "np_exp (Fl a) = Fl (exp a)"
| "np_exp PInf = PInf"
| "np_exp NInf = Fl 0"
| "np_exp NaN = NaN"

text \<open>\<open>np.maximum\<close> and \<open>np.minimum\<close> propagate NaN.\<close>

definition np_maximum :: "fval \<Rightarrow> fval \<Rightarrow> fval" where
  "np_maximum a b = (if a = NaN \<or> b = NaN then NaN else if fl_lt a b then b else a)"

definition np_minimum :: "fval \<Rightarrow> fval \<Rightarrow> fval" where
  "np_minimum a b = (if a = NaN \<or> b = NaN then NaN else if fl_lt b a then b else a)"

text \<open>\<open>np.clip(a, a_min, a_max)\<close> is \<open>np.minimum(a_max, np.maximum(a, a_min))\<close>.\<close>

definition np_clip :: "fval \<Rightarrow> fval \<Rightarrow> fval \<Rightarrow> fval" where
  "np_clip a a_min a_max = np_minimum a_max (np_maximum a a_min)"

section \<open>The cast to float32\<close>

text \<open>Rounding to the nearest integer, a tie going to the even one.\<close>

definition round_half_even :: "real \<Rightarrow> int" where
  "round_half_even t =
     (let f = \<lfloor>t\<rfloor>; d = t - of_int f
      in if d < 1 / 2 then f else if 1 / 2 < d then f + 1 else if even f then f else f + 1)"

text \<open>\<open>2\<close> to an integer power.\<close>

definition pow2 :: "int \<Rightarrow> real" where
  "pow2 k = 2 powr of_int k"

text \<open>
  A float32 number has a significand of 24 bits; below \<open>2^-126\<close> the numbers are
  subnormal and keep the spacing \<open>2^-149\<close>.
\<close>

definition float32_exponent :: "real \<Rightarrow> int" where
  "float32_exponent x = max \<lfloor>log 2 \<bar>x\<bar>\<rfloor> (- 126)"

text \<open>The nearest float32 number, the exponent not yet bounded above.\<close>

definition round_float32 :: "real \<Rightarrow> real" where
  "round_float32 x =
     (if x = 0 then 0
      else of_int (round_half_even (x * pow2 (23 - float32_exponent x)))
             * pow2 (float32_exponent x - 23))"

text \<open>
  \<open>astype("float32")\<close>, and the assignment of a Python float into a float32 array: a
  number that rounds to \<open>2^128\<close> or beyond becomes an infinity.
\<close>

fun astype_float32 :: "fval \<Rightarrow> fval" where
  "astype_float32 (Fl x) =
     (let y = round_float32 x
      in if 2 ^ 128 \<le> \<bar>y\<bar> then (if 0 < x then PInf else NInf) else Fl y)"
| "astype_float32 PInf = PInf"
| "astype_float32 NInf = NInf"
| "astype_float32 NaN = NaN"

text \<open>
  The element type of a band. In \<open>arr <= t\<close> numpy compares at the type of the array:
  against a float32 array the Python float \<open>t\<close> is first rounded to float32.
\<close>

datatype dtype = Float32 | Float64

fun np_scalar :: "dtype \<Rightarrow> fval \<Rightarrow> fval" where
  "np_scalar Float32 t = astype_float32 t"
| "np_scalar Float64 t = t"

section \<open>Errors, ranges and loops\<close>

text \<open>
  Every \<open>raise\<close> of the two scripts, and the exceptions of the Python built-ins they
  call (\<open>range\<close> with step 0, \<open>float(None)\<close>), as values.
\<close>

text \<open>A keyword argument of a WhiteboxTools call: a string or a number.\<close>

datatype arg = Str string | Num real

datatype error =
    Could_not_open_raster
  | Could_not_open_hotspots
  | Hotspots_layer_is_empty
  | No_values_found_in_field string
  | Weight_raster_grid_does_not_match
  | Weight_raster_geotransform_does_not_match
  | WhiteboxTools_failed string "(string \<times> arg) list"
  | ValueError
  | TypeError

text \<open>The offsets \<open>i, i + step, ...\<close> below \<open>stop\<close>, for a positive step.\<close>

function range_from :: "nat \<Rightarrow> nat \<Rightarrow> nat \<Rightarrow> nat list" where
  "range_from i stop step =
     (if step = 0 \<or> stop \<le> i then [] else i # range_from (i + step) stop step)"
  by pat_completeness auto
termination
  by (relation "measure (\<lambda>(i, stop, step). stop - i)") auto

declare range_from.simps [simp del]

text \<open>\<open>range(0, stop, step)\<close>: a zero step raises, a negative one gives no offset.\<close>

definition py_range :: "nat \<Rightarrow> int \<Rightarrow> error + nat list" where
  "py_range stop step =
     (if step = 0 then Inl ValueError
      else if step < 0 then Inr []
      else Inr (range_from 0 stop (nat step)))"

text \<open>A \<open>for\<close> loop over offsets whose body updates a state or raises.\<close>

fun for_loop :: "nat list \<Rightarrow> (nat \<Rightarrow> 's \<Rightarrow> error + 's) \<Rightarrow> 's \<Rightarrow> error + 's" where
  "for_loop [] body s = Inr s"
| "for_loop (i # rest) body s =
     (case body i s of Inl e \<Rightarrow> Inl e | Inr s' \<Rightarrow> for_loop rest body s')"

definition for_range :: "nat \<Rightarrow> int \<Rightarrow> (nat \<Rightarrow> 's \<Rightarrow> error + 's) \<Rightarrow> 's \<Rightarrow> error + 's" where
  "for_range stop step body s =
     (case py_range stop step of Inl e \<Rightarrow> Inl e | Inr offs \<Rightarrow> for_loop offs body s)"

section \<open>Arrays, rasters and windows\<close>

text \<open>
  A two-dimensional numpy array: its shape and its element at row \<open>i\<close>, column \<open>j\<close>.
\<close>

record 'a ndarray =
  nrows :: nat
  ncols :: nat
  elem :: "nat \<Rightarrow> nat \<Rightarrow> 'a"

definition arr_map :: "('a \<Rightarrow> 'b) \<Rightarrow> 'a ndarray \<Rightarrow> 'b ndarray" where
  "arr_map f a = \<lparr>nrows = nrows a, ncols = ncols a, elem = (\<lambda>i j. f (elem a i j))\<rparr>"

definition arr_map2 :: "('a \<Rightarrow> 'b \<Rightarrow> 'c) \<Rightarrow> 'a ndarray \<Rightarrow> 'b ndarray \<Rightarrow> 'c ndarray" where
  "arr_map2 f a b =
     \<lparr>nrows = nrows a, ncols = ncols a, elem = (\<lambda>i j. f (elem a i j) (elem b i j))\<rparr>"

text \<open>
  An opened raster dataset with its first band: size, geotransform, projection, the
  band's nodata value, block size and element type, and the cell at column \<open>x\<close>,
  row \<open>y\<close>. The band is taken to declare a nodata value.
\<close>

type_synonym geotransform = "real \<times> real \<times> real \<times> real \<times> real \<times> real"

record raster =
  RasterXSize :: nat
  RasterYSize :: nat
  GeoTransform :: geotransform
  Projection :: string
  NoDataValue :: fval
  BlockSize :: "nat \<times> nat"
  DataType :: dtype
  cell :: "nat \<Rightarrow> nat \<Rightarrow> fval"

text \<open>\<open>band.ReadAsArray(x, y, cols, rows)\<close> and rasterio's \<open>read(1, window)\<close>.\<close>

definition ReadAsArray :: "raster \<Rightarrow> nat \<Rightarrow> nat \<Rightarrow> nat \<Rightarrow> nat \<Rightarrow> fval ndarray" where
  "ReadAsArray r x y cols rows =
     \<lparr>nrows = rows, ncols = cols, elem = (\<lambda>i j. cell r (x + j) (y + i))\<rparr>"

text \<open>
  A dataset being written: its metadata, its cells (\<open>None\<close> while never written) and
  the list of the windows \<open>(xoff, yoff, cols, rows)\<close> written so far, oldest first.
\<close>

type_synonym window = "nat \<times> nat \<times> nat \<times> nat"

record out_raster =
  out_xsize :: nat
  out_ysize :: nat
  out_gt :: geotransform
  out_proj :: string
  out_nodata :: fval
  out_cell :: "nat \<Rightarrow> nat \<Rightarrow> fval option"
  written :: "window list"

definition in_window :: "window \<Rightarrow> nat \<Rightarrow> nat \<Rightarrow> bool" where
  "in_window w x y =
     (case w of (xoff, yoff, cols, rows) \<Rightarrow>
        xoff \<le> x \<and> x < xoff + cols \<and> yoff \<le> y \<and> y < yoff + rows)"

text \<open>\<open>out_band.WriteArray(arr, xoff, yoff)\<close> and rasterio's \<open>dst.write(arr, 1, window)\<close>.\<close>

definition WriteArray :: "fval ndarray \<Rightarrow> nat \<Rightarrow> nat \<Rightarrow> out_raster \<Rightarrow> out_raster" where
  "WriteArray arr xoff yoff out =
     out\<lparr>out_cell := (\<lambda>x y.
            if in_window (xoff, yoff, ncols arr, nrows arr) x y
            then Some (elem arr (y - yoff) (x - xoff))
            else out_cell out x y),
         written := written out @ [(xoff, yoff, ncols arr, nrows arr)]\<rparr>"

section \<open>blend\_wuhan\_weights.py: blend\_probabilities\<close>

text \<open>\<open>_open_base_raster\<close>: \<open>gdal.Open\<close> gave no dataset.\<close>

definition open_base_raster :: "raster option \<Rightarrow> error + raster" where
  "open_base_raster ds = (case ds of None \<Rightarrow> Inl Could_not_open_raster | Some r \<Rightarrow> Inr r)"

text \<open>The body of the two tile loops, lines 140 to 151, on one window.\<close>

definition blend_tile ::
  "raster \<Rightarrow> raster \<Rightarrow> fval \<Rightarrow> fval \<Rightarrow> fval \<Rightarrow> fval \<Rightarrow> nat \<Rightarrow> nat \<Rightarrow> nat \<Rightarrow> nat \<Rightarrow> fval ndarray"
where
  "blend_tile base weight nodata strength neutral_value eps x y cols rows =
    (let base_arr = ReadAsArray base x y cols rows;
         weight_arr = ReadAsArray weight x y cols rows;
         mask = arr_map (\<lambda>b. fl_eq b nodata) base_arr;
         base_arr = arr_map (\<lambda>b. np_clip b eps (fl_sub (Fl 1) eps)) base_arr;
         weight_arr = arr_map (\<lambda>w. if fl_gt w (Fl 0) then w else neutral_value) weight_arr;
         logit = arr_map np_log
                   (arr_map2 fl_div base_arr (arr_map (\<lambda>b. fl_sub (Fl 1) b) base_arr));
         shifted = arr_map2 fl_add logit
                     (arr_map (\<lambda>w. fl_mul strength (fl_sub w neutral_value)) weight_arr);
         blended = arr_map (\<lambda>s. fl_div (Fl 1) (fl_add (Fl 1) (np_exp (fl_neg s)))) shifted;
         blended = arr_map astype_float32 blended;
         blended = arr_map2 (\<lambda>m v. if m then astype_float32 nodata else v) mask blended
     in blended)"

definition blend_probabilities ::
  "raster option \<Rightarrow> raster option \<Rightarrow> fval \<Rightarrow> fval \<Rightarrow> fval \<Rightarrow> error + out_raster"
where
  "blend_probabilities base_path weight_path strength neutral_value eps =
    (case open_base_raster base_path of Inl e \<Rightarrow> Inl e | Inr base_ds \<Rightarrow>
     case open_base_raster weight_path of Inl e \<Rightarrow> Inl e | Inr weight_ds \<Rightarrow>
     let gt = GeoTransform base_ds; proj = Projection base_ds;
         nodata = NoDataValue base_ds; w_gt = GeoTransform weight_ds
     in
     if RasterXSize base_ds \<noteq> RasterXSize weight_ds
        \<or> RasterYSize base_ds \<noteq> RasterYSize weight_ds
     then Inl Weight_raster_grid_does_not_match
     else if gt \<noteq> w_gt then Inl Weight_raster_geotransform_does_not_match
     else
       let out_ds = \<lparr>out_xsize = RasterXSize base_ds, out_ysize = RasterYSize base_ds,
                     out_gt = gt, out_proj = proj, out_nodata = nodata,
                     out_cell = (\<lambda>x y. None), written = []\<rparr>;
           block_x = fst (BlockSize base_ds); block_y = snd (BlockSize base_ds);
           xsize = RasterXSize base_ds; ysize = RasterYSize base_ds
       in
       for_range ysize (int block_y) (\<lambda>y out.
         let rows = min block_y (ysize - y) in
         for_range xsize (int block_x) (\<lambda>x out.
           let cols = min block_x (xsize - x) in
           Inr (WriteArray
                  (blend_tile base_ds weight_ds nodata strength neutral_value eps x y cols rows)
                  x y out)) out) out_ds)"


text \<open>The cell of a finished output, or the error that prevented it.\<close>

definition cell_of :: "error + out_raster \<Rightarrow> nat \<Rightarrow> nat \<Rightarrow> error + fval option" where
  "cell_of res x y = (case res of Inl e \<Rightarrow> Inl e | Inr out \<Rightarrow> Inr (out_cell out x y))"

text \<open>
  The value the specification gives for one cell: the inverse logit of the logit of the
  clamped base value shifted by \<open>strength * (weight - neutral)\<close>, a weight that is not
  strictly positive counting as neutral.
\<close>

definition blend_formula :: "fval \<Rightarrow> fval \<Rightarrow> fval \<Rightarrow> fval \<Rightarrow> fval \<Rightarrow> fval" where
  "blend_formula p w s n eps =
    (let q = np_clip p eps (fl_sub (Fl 1) eps);
         w' = (if fl_gt w (Fl 0) then w else n)
     in fl_div (Fl 1)
          (fl_add (Fl 1)
             (np_exp (fl_neg (fl_add (np_log (fl_div q (fl_sub (Fl 1) q)))
                                     (fl_mul s (fl_sub w' n)))))))"

text \<open>
  What the blend leaves in a cell: the value of the formula as a float32 number, and the
  nodata value, as a float32 number, restored over it.
\<close>

definition blend_cell :: "raster \<Rightarrow> raster \<Rightarrow> fval \<Rightarrow> fval \<Rightarrow> fval \<Rightarrow> nat \<Rightarrow> nat \<Rightarrow> fval" where
  "blend_cell base weight s n eps x y =
     (if fl_eq (cell base x y) (NoDataValue base) then astype_float32 (NoDataValue base)
      else astype_float32 (blend_formula (cell base x y) (cell weight x y) s n eps))"

text \<open>The windows the two nested tile loops visit, in the order they visit them.\<close>

definition grid_tiles :: "nat \<Rightarrow> nat \<Rightarrow> nat \<Rightarrow> nat \<Rightarrow> window list" where
  "grid_tiles W H bx by =
     concat (map (\<lambda>y. map (\<lambda>x. (x, y, min bx (W - x), min by (H - y))) (range_from 0 W bx))
                 (range_from 0 H by))"

text \<open>How many of the windows written so far contain a cell.\<close>

definition times_written :: "window list \<Rightarrow> nat \<Rightarrow> nat \<Rightarrow> nat" where
  "times_written ws x y = length (filter (\<lambda>w. in_window w x y) ws)"

definition span_hits :: "nat \<Rightarrow> nat \<Rightarrow> nat \<Rightarrow> nat \<Rightarrow> bool" where
  "span_hits n step c off = (off \<le> c \<and> c < off + min step (n - off))"

text \<open>
  The rasters of the end-to-end scenario of the specification: a base raster of four by
  four cells, all \<open>0.5\<close>, with nodata \<open>-9999\<close>, and a weight raster that is neutral
  but for one cell of weight \<open>1.0\<close>.
\<close>

definition example_base :: raster where
  "example_base =
     \<lparr>RasterXSize = 4, RasterYSize = 4, GeoTransform = (0, 1, 0, 0, 0, - 1),
      Projection = ''EPSG:32629'', NoDataValue = Fl (- 9999), BlockSize = (3, 2), DataType = Float32,
      cell = (\<lambda>x y. Fl (1 / 2))\<rparr>"

definition example_weight :: raster where
  "example_weight =
     \<lparr>RasterXSize = 4, RasterYSize = 4, GeoTransform = (0, 1, 0, 0, 0, - 1),
      Projection = ''EPSG:32629'', NoDataValue = Fl 0, BlockSize = (4, 1), DataType = Float32,
      cell = (\<lambda>x y. if x = 1 \<and> y = 2 then Fl 1 else Fl (1 / 2))\<rparr>"

text \<open>
  A base raster with one nodata cell and one NaN cell, and a weight raster in another
  projection whose weights lie below, at and above the neutral value \<open>0.5\<close>, one
  of them infinite.
\<close>

definition gappy_base :: raster where
  "gappy_base =
     \<lparr>RasterXSize = 4, RasterYSize = 4, GeoTransform = (0, 1, 0, 0, 0, - 1),
      Projection = ''EPSG:32629'', NoDataValue = Fl (- 9999), BlockSize = (3, 2), DataType = Float32,
      cell = (\<lambda>x y. if x = 3 \<and> y = 3 then Fl (- 9999) else if x = 0 \<and> y = 3 then NaN
                      else Fl (1 / 2))\<rparr>"

definition graded_weight :: raster where
  "graded_weight =
     \<lparr>RasterXSize = 4, RasterYSize = 4, GeoTransform = (0, 1, 0, 0, 0, - 1),
      Projection = ''EPSG:4326'', NoDataValue = Fl 0, BlockSize = (4, 1), DataType = Float32,
      cell = (\<lambda>x y. if x = 1 \<and> y = 2 then Fl 1 else if x = 2 \<and> y = 2 then Fl (3 / 4)
                      else if x = 0 \<and> y = 0 then Fl (1 / 4)
                      else if x = 3 \<and> y = 0 then PInf else Fl (1 / 2))\<rparr>"

text \<open>The two messages with which the blend rejects a weight raster on another grid.\<close>

definition is_GridMismatch :: "error \<Rightarrow> bool" where
  "is_GridMismatch e =
     (e = Weight_raster_grid_does_not_match \<or> e = Weight_raster_geotransform_does_not_match)"

text \<open>The fields the output dataset is created with, lines 119 to 131.\<close>

definition same_metadata :: "out_raster \<Rightarrow> out_raster \<Rightarrow> bool" where
  "same_metadata a b =
     (out_xsize a = out_xsize b \<and> out_ysize a = out_ysize b \<and> out_gt a = out_gt b
      \<and> out_proj a = out_proj b \<and> out_nodata a = out_nodata b)"

section \<open>build\_p\_terrain\_masked\_from\_dem.py: apply\_mask\<close>

text \<open>\<open>out[mask] = vals[mask]\<close>.\<close>

definition put_mask :: "'a ndarray \<Rightarrow> bool ndarray \<Rightarrow> 'a ndarray \<Rightarrow> 'a ndarray" where
  "put_mask out sel vals =
     \<lparr>nrows = nrows out, ncols = ncols out,
      elem = (\<lambda>i j. if elem sel i j then elem vals i j else elem out i j)\<rparr>"

text \<open>
  The body of the two window loops, lines 58 to 70, on one window. Each array has the
  element type of its band, so each threshold is compared at that type; \<open>out\<close> is a
  float32 array.
\<close>

definition mask_tile ::
  "raster \<Rightarrow> raster \<Rightarrow> raster \<Rightarrow> raster \<Rightarrow> fval \<Rightarrow> fval \<Rightarrow> fval
     \<Rightarrow> nat \<Rightarrow> nat \<Rightarrow> nat \<Rightarrow> nat \<Rightarrow> fval ndarray"
where
  "mask_tile p_src s_src h_src d_src slope_max hand_max dist_max col_off row_off win_w win_h =
    (let p = ReadAsArray p_src col_off row_off win_w win_h;
         slp = ReadAsArray s_src col_off row_off win_w win_h;
         hd = ReadAsArray h_src col_off row_off win_w win_h;
         dist = ReadAsArray d_src col_off row_off win_w win_h;
         mask = arr_map (\<lambda>v. True) p;
         mask = arr_map2 (\<and>) mask (arr_map np_isfinite p);
         mask = arr_map2 (\<and>) mask
                  (arr_map2 (\<and>) (arr_map np_isfinite slp)
                     (arr_map (\<lambda>v. fl_le v (np_scalar (DataType s_src) slope_max)) slp));
         mask = arr_map2 (\<and>) mask
                  (arr_map2 (\<and>) (arr_map np_isfinite hd)
                     (arr_map (\<lambda>v. fl_le v (np_scalar (DataType h_src) hand_max)) hd));
         mask = arr_map2 (\<and>) mask
                  (arr_map2 (\<and>) (arr_map np_isfinite dist)
                     (arr_map (\<lambda>v. fl_le v (np_scalar (DataType d_src) dist_max)) dist));
         out = arr_map (\<lambda>v. Fl 0) p;
         out = put_mask out mask (arr_map astype_float32 p)
     in out)"

text \<open>
  The four rasters are the opened datasets; the covariates are read with the windows of
  the probability raster, as the program does.
\<close>

definition apply_mask ::
  "raster \<Rightarrow> raster \<Rightarrow> raster \<Rightarrow> raster \<Rightarrow> fval \<Rightarrow> fval \<Rightarrow> fval \<Rightarrow> int \<Rightarrow> error + out_raster"
where
  "apply_mask p_src s_src h_src d_src slope_max hand_max dist_max window =
    (let height = RasterYSize p_src; width = RasterXSize p_src;
         dst = \<lparr>out_xsize = width, out_ysize = height, out_gt = GeoTransform p_src,
                out_proj = Projection p_src, out_nodata = Fl 0,
                out_cell = (\<lambda>x y. None), written = []\<rparr>
     in
     for_range height window (\<lambda>row_off dst.
       let win_h = min (nat window) (height - row_off) in
       for_range width window (\<lambda>col_off dst.
         let win_w = min (nat window) (width - col_off) in
         Inr (WriteArray
                (mask_tile p_src s_src h_src d_src slope_max hand_max dist_max
                   col_off row_off win_w win_h)
                col_off row_off dst)) dst) dst)"

text \<open>The admissibility condition of the specification.\<close>

definition admissible :: "fval \<Rightarrow> fval \<Rightarrow> fval \<Rightarrow> fval \<Rightarrow> fval \<Rightarrow> fval \<Rightarrow> fval \<Rightarrow> bool" where
  "admissible p slope hand dst slope_max hand_max dist_max =
     (np_isfinite p \<and> np_isfinite slope \<and> fl_le slope slope_max
      \<and> np_isfinite hand \<and> fl_le hand hand_max
      \<and> np_isfinite dst \<and> fl_le dst dist_max)"

text \<open>
  What the mask leaves in a cell: the probability as a float32 number where the cell is
  admissible, the thresholds being taken as numpy compares them, and \<open>0.0\<close> elsewhere.
\<close>

definition mask_cell ::
  "raster \<Rightarrow> raster \<Rightarrow> raster \<Rightarrow> raster \<Rightarrow> fval \<Rightarrow> fval \<Rightarrow> fval \<Rightarrow> nat \<Rightarrow> nat \<Rightarrow> fval" where
  "mask_cell p_src s_src h_src d_src slope_max hand_max dist_max x y =
     (if admissible (cell p_src x y) (cell s_src x y) (cell h_src x y) (cell d_src x y)
           (np_scalar (DataType s_src) slope_max) (np_scalar (DataType h_src) hand_max)
           (np_scalar (DataType d_src) dist_max)
      then astype_float32 (cell p_src x y) else Fl 0)"

text \<open>
  Four float32 rasters of three by two cells for the masking scenario of the
  specification: the probability is \<open>0.73\<close> (as a float32 number) in the first row,
  and \<open>0.0\<close> or NaN in the second; the slope is 12 degrees in the first column and 5
  elsewhere; the height above the stream is 5 m but for one NaN; the distance is 50 m.
\<close>

definition terrain_prob :: raster where
  "terrain_prob =
     \<lparr>RasterXSize = 3, RasterYSize = 2, GeoTransform = (0, 1, 0, 0, 0, - 1),
      Projection = ''EPSG:32629'', NoDataValue = Fl 0, BlockSize = (3, 1), DataType = Float32,
      cell = (\<lambda>x y. if y = 0 then Fl (round_float32 (73 / 100))
                      else if x = 0 then Fl 0 else NaN)\<rparr>"

definition terrain_slope :: raster where
  "terrain_slope =
     \<lparr>RasterXSize = 3, RasterYSize = 2, GeoTransform = (0, 1, 0, 0, 0, - 1),
      Projection = ''EPSG:32629'', NoDataValue = Fl (- 32768), BlockSize = (3, 1), DataType = Float32,
      cell = (\<lambda>x y. if x = 0 then Fl 12 else Fl 5)\<rparr>"

definition terrain_hand :: raster where
  "terrain_hand =
     \<lparr>RasterXSize = 3, RasterYSize = 2, GeoTransform = (0, 1, 0, 0, 0, - 1),
      Projection = ''EPSG:32629'', NoDataValue = Fl (- 32768), BlockSize = (3, 1), DataType = Float32,
      cell = (\<lambda>x y. if x = 2 \<and> y = 0 then NaN else Fl 5)\<rparr>"

definition terrain_dist :: raster where
  "terrain_dist =
     \<lparr>RasterXSize = 3, RasterYSize = 2, GeoTransform = (0, 1, 0, 0, 0, - 1),
      Projection = ''EPSG:32629'', NoDataValue = Fl (- 32768), BlockSize = (3, 1), DataType = Float32,
      cell = (\<lambda>x y. Fl 50)\<rparr>"

section \<open>blend\_wuhan\_weights.py: the normalisation of rasterize\_hotspots\<close>

text \<open>
  A layer is the list of its features, each given by the value of the attribute
  field: \<open>None\<close> where \<open>GetField\<close> returns \<open>None\<close>, else the number \<open>float(val)\<close>.
\<close>

type_synonym layer = "real option list"

text \<open>Lines 50 to 54: the values of the features that have one.\<close>

fun collect_values :: "layer \<Rightarrow> real list \<Rightarrow> real list" where
  "collect_values [] values = values"
| "collect_values (val # rest) values =
     (case val of None \<Rightarrow> collect_values rest values
      | Some v \<Rightarrow> collect_values rest (values @ [v]))"

text \<open>\<open>min\<close> and \<open>max\<close> of a non-empty list.\<close>

fun py_min :: "real list \<Rightarrow> real" where
  "py_min [] = 0"
| "py_min (v # rest) = fold (\<lambda>x m. if x < m then x else m) rest v"

fun py_max :: "real list \<Rightarrow> real" where
  "py_max [] = 0"
| "py_max (v # rest) = fold (\<lambda>x m. if m < x then x else m) rest v"

text \<open>Lines 67 to 71: \<open>float(raw)\<close> raises on a feature without a value.\<close>

fun set_wnorm :: "real \<Rightarrow> real \<Rightarrow> layer \<Rightarrow> error + real list" where
  "set_wnorm vmin spn [] = Inr []"
| "set_wnorm vmin spn (raw # rest) =
     (case raw of None \<Rightarrow> Inl TypeError
      | Some a \<Rightarrow>
          (case set_wnorm vmin spn rest of Inl e \<Rightarrow> Inl e
           | Inr norms \<Rightarrow> Inr ((a - vmin) / spn # norms)))"

text \<open>
  Lines 40 to 71 of \<open>rasterize_hotspots\<close>; the result is the \<open>WNORM\<close> value of every
  feature of the in-memory copy, in layer order. Burning them into the raster is left to
  GDAL.
\<close>

definition rasterize_hotspots :: "layer option \<Rightarrow> raster option \<Rightarrow> string \<Rightarrow> error + real list" where
  "rasterize_hotspots hotspots_path template_path value_field =
    (case open_base_raster template_path of Inl e \<Rightarrow> Inl e | Inr base_ds \<Rightarrow>
     case hotspots_path of None \<Rightarrow> Inl Could_not_open_hotspots | Some layer \<Rightarrow>
     if length layer = 0 then Inl Hotspots_layer_is_empty
     else
       let values = collect_values layer [] in
       if values = [] then Inl (No_values_found_in_field value_field)
       else
         let vmin = py_min values; vmax = py_max values;
             span = (if vmax \<noteq> vmin then vmax - vmin else 1)
         in set_wnorm vmin span layer)"

section \<open>build\_p\_terrain\_masked\_from\_dem.py: the WhiteboxTools steps of main\<close>

text \<open>
  The toolkit is a function from the calls made so far and the call being made to the
  truth value of what the tool returns. The state is the list of the calls made, oldest
  first.
\<close>

type_synonym kwargs = "(string \<times> arg) list"
type_synonym call = "string \<times> kwargs"
type_synonym whitebox = "call list \<Rightarrow> string \<Rightarrow> kwargs \<Rightarrow> bool"

definition run_wbt :: "whitebox \<Rightarrow> string \<Rightarrow> kwargs \<Rightarrow> call list \<Rightarrow> (error + unit) \<times> call list" where
  "run_wbt wbt tool kw calls =
    (let ok = wbt calls tool kw; calls = calls @ [(tool, kw)]
     in if \<not> ok then (Inl (WhiteboxTools_failed tool kw), calls) else (Inr (), calls))"

text \<open>One statement after another: an exception skips the rest.\<close>

definition then_do ::
  "(call list \<Rightarrow> (error + unit) \<times> call list) \<Rightarrow> (call list \<Rightarrow> (error + unit) \<times> call list)
     \<Rightarrow> call list \<Rightarrow> (error + unit) \<times> call list"
where
  "then_do first rest calls =
    (case first calls of (Inl e, calls') \<Rightarrow> (Inl e, calls') | (Inr u, calls') \<Rightarrow> rest calls')"

text \<open>\<open>str(tmp / name)\<close>.\<close>

definition tmp_file :: "string \<Rightarrow> string \<Rightarrow> string" where
  "tmp_file tmpdir name = tmpdir @ ''/'' @ name"

text \<open>Lines 97 to 114 of \<open>main\<close>, from no call made.\<close>

definition main_wbt :: "whitebox \<Rightarrow> string \<Rightarrow> string \<Rightarrow> real \<Rightarrow> (error + unit) \<times> call list" where
  "main_wbt wbt dem tmpdir stream_thresh =
    (let filled = tmp_file tmpdir ''dem_filled.tif'';
         fdir = tmp_file tmpdir ''d8_dir.tif'';
         facc = tmp_file tmpdir ''flow_acc.tif'';
         streams = tmp_file tmpdir ''streams.tif'';
         dist = tmp_file tmpdir ''dist2stream.tif'';
         hand = tmp_file tmpdir ''hand.tif'';
         slope = tmp_file tmpdir ''slope.tif''
     in
     then_do (run_wbt wbt ''fill_depressions'' [(''dem'', Str dem), (''output'', Str filled)])
    (then_do (run_wbt wbt ''d8_pointer'' [(''dem'', Str filled), (''output'', Str fdir)])
    (then_do (run_wbt wbt ''d8_flow_accumulation''
                [(''dem'', Str filled), (''output'', Str facc), (''out_type'', Str ''cells'')])
    (then_do (run_wbt wbt ''extract_streams''
                [(''flow_accum'', Str facc), (''output'', Str streams),
                 (''threshold'', Num stream_thresh)])
    (then_do (run_wbt wbt ''euclidean_distance'' [(''i'', Str streams), (''output'', Str dist)])
    (then_do (run_wbt wbt ''elevation_above_stream''
                [(''dem'', Str filled), (''streams'', Str streams), (''output'', Str hand),
                 (''wd'', Str tmpdir)])
             (run_wbt wbt ''slope''
                [(''dem'', Str filled), (''output'', Str slope), (''units'', Str ''degrees'')])
    ))))) [])"

section \<open>Rounding to float32\<close>

lemma pow2_pos: "0 < pow2 k"
  by (simp add: pow2_def)

lemma pow2_add: "pow2 (a + b) = pow2 a * pow2 b"
  by (simp add: pow2_def powr_add)

lemma pow2_mono: "a \<le> b \<Longrightarrow> pow2 a \<le> pow2 b"
  by (simp add: pow2_def)

lemma pow2_nat: "pow2 (int n) = 2 ^ n"
  by (simp add: pow2_def powr_realpow)

lemma pow2_neg: "pow2 (- int n) = 1 / 2 ^ n"
  by (simp add: pow2_def powr_minus powr_realpow divide_inverse)

lemma pow2_mult: "a + b = c \<Longrightarrow> pow2 a * pow2 b = pow2 c"
  by (auto simp add: pow2_add)

lemma pow2_23: "pow2 23 = 2 ^ 23"
  using pow2_nat [of 23] by simp

lemma pow2_24: "pow2 24 = 2 ^ 24"
  using pow2_nat [of 24] by simp

lemma pow2_m24: "pow2 (- 24) = 1 / 2 ^ 24"
  using pow2_neg [of 24] by simp

lemma round_half_even_cases:
  "round_half_even t = \<lfloor>t\<rfloor> \<or> round_half_even t = \<lfloor>t\<rfloor> + 1"
  by (simp add: round_half_even_def Let_def)

lemma round_half_even_of_int: "round_half_even (of_int n) = n"
  by (simp add: round_half_even_def)

lemma round_half_even_mono:
  assumes "s \<le> t"
  shows "round_half_even s \<le> round_half_even t"
proof (cases "\<lfloor>s\<rfloor> = \<lfloor>t\<rfloor>")
  case True
  then show ?thesis using assms by (auto simp add: round_half_even_def Let_def)
next
  case False
  with assms have "\<lfloor>s\<rfloor> < \<lfloor>t\<rfloor>" using floor_mono [OF assms] by simp
  moreover have "round_half_even s \<le> \<lfloor>s\<rfloor> + 1" using round_half_even_cases [of s] by auto
  moreover have "\<lfloor>t\<rfloor> \<le> round_half_even t" using round_half_even_cases [of t] by auto
  ultimately show ?thesis by simp
qed

lemma round_half_even_error: "\<bar>of_int (round_half_even t) - t\<bar> \<le> 1 / 2"
proof -
  have "of_int \<lfloor>t\<rfloor> \<le> t" "t < of_int \<lfloor>t\<rfloor> + 1" by linarith+
  then show ?thesis by (auto simp add: round_half_even_def Let_def)
qed

lemma round_half_even_le: "t \<le> of_int n \<Longrightarrow> round_half_even t \<le> n"
  using round_half_even_mono [of t "of_int n"] by (simp add: round_half_even_of_int)

lemma round_half_even_ge: "of_int n \<le> t \<Longrightarrow> n \<le> round_half_even t"
  using round_half_even_mono [of "of_int n" t] by (simp add: round_half_even_of_int)

lemma float32_exponent_eq:
  assumes "pow2 k \<le> \<bar>x\<bar>" and "\<bar>x\<bar> < pow2 (k + 1)" and "- 126 \<le> k"
  shows "float32_exponent x = k"
proof -
  have pos: "0 < \<bar>x\<bar>" using assms(1) pow2_pos [of k] by linarith
  have "\<lfloor>log 2 \<bar>x\<bar>\<rfloor> = k"
    using assms(1,2) pos floor_log_eq_powr_iff [of "\<bar>x\<bar>" 2 k] by (simp add: pow2_def)
  then show ?thesis using assms(3) by (simp add: float32_exponent_def)
qed

lemma float32_exponent_bounds:
  assumes "x \<noteq> 0"
  shows "\<bar>x\<bar> < pow2 (float32_exponent x + 1)"
    and "- 126 < float32_exponent x \<Longrightarrow> pow2 (float32_exponent x) \<le> \<bar>x\<bar>"
proof -
  have pos: "0 < \<bar>x\<bar>" using assms by simp
  let ?k = "\<lfloor>log 2 \<bar>x\<bar>\<rfloor>"
  have b: "pow2 ?k \<le> \<bar>x\<bar>" "\<bar>x\<bar> < pow2 (?k + 1)"
    using floor_log_eq_powr_iff [of "\<bar>x\<bar>" 2 ?k] pos by (simp_all add: pow2_def)
  have "pow2 (?k + 1) \<le> pow2 (float32_exponent x + 1)"
    by (rule pow2_mono) (simp add: float32_exponent_def)
  with b(2) show "\<bar>x\<bar> < pow2 (float32_exponent x + 1)" by linarith
  show "pow2 (float32_exponent x) \<le> \<bar>x\<bar>" if "- 126 < float32_exponent x"
  proof -
    from that have "float32_exponent x = ?k"
      by (simp add: float32_exponent_def max_def split: if_splits)
    with b(1) show ?thesis by simp
  qed
qed

lemma float32_exponent_mono:
  assumes "0 < u" and "u \<le> v"
  shows "float32_exponent u \<le> float32_exponent v"
proof -
  have "log 2 u \<le> log 2 v" using assms by simp
  then have "\<lfloor>log 2 u\<rfloor> \<le> \<lfloor>log 2 v\<rfloor>" by (rule floor_mono)
  then show ?thesis using assms by (simp add: float32_exponent_def)
qed

text \<open>Within its binade a number is rounded with the spacing of that binade.\<close>

lemma round_float32_upper:
  assumes "0 < x" and "x \<le> pow2 (float32_exponent x + 1)"
  shows "round_float32 x \<le> pow2 (float32_exponent x + 1)"
proof -
  let ?e = "float32_exponent x"
  let ?r = "round_half_even (x * pow2 (23 - ?e))"
  have "x * pow2 (23 - ?e) \<le> pow2 (?e + 1) * pow2 (23 - ?e)"
    using assms(2) pow2_pos [of "23 - ?e"] by (simp add: mult_right_mono)
  also have "\<dots> = pow2 (int 24)" by (rule pow2_mult) simp
  also have "\<dots> = of_int (2 ^ 24)" by (simp add: pow2_24)
  finally have "?r \<le> 2 ^ 24" by (rule round_half_even_le)
  then have "real_of_int ?r \<le> real_of_int (2 ^ 24)" by (simp only: of_int_le_iff)
  then have "real_of_int ?r * pow2 (?e - 23) \<le> real_of_int (2 ^ 24) * pow2 (?e - 23)"
    using pow2_pos [of "?e - 23"] by (simp add: mult_right_mono)
  also have "real_of_int (2 ^ 24) = pow2 (int 24)" by (simp add: pow2_24)
  also have "pow2 (int 24) * pow2 (?e - 23) = pow2 (?e + 1)"
    by (rule pow2_mult) simp
  finally show ?thesis using assms(1) by (simp add: round_float32_def)
qed

lemma round_float32_lower:
  assumes "0 < x" and "pow2 (float32_exponent x) \<le> x"
  shows "pow2 (float32_exponent x) \<le> round_float32 x"
proof -
  let ?e = "float32_exponent x"
  let ?r = "round_half_even (x * pow2 (23 - ?e))"
  have "real_of_int (2 ^ 23) = pow2 (int 23)" by (simp add: pow2_23)
  also have "\<dots> = pow2 ?e * pow2 (23 - ?e)" by (rule pow2_mult [symmetric]) simp
  also have "\<dots> \<le> x * pow2 (23 - ?e)"
    using assms(2) pow2_pos [of "23 - ?e"] by (simp add: mult_right_mono)
  finally have "2 ^ 23 \<le> ?r" by (rule round_half_even_ge)
  then have "real_of_int (2 ^ 23) \<le> real_of_int ?r" by (simp only: of_int_le_iff)
  then have "real_of_int (2 ^ 23) * pow2 (?e - 23) \<le> real_of_int ?r * pow2 (?e - 23)"
    using pow2_pos [of "?e - 23"] by (simp add: mult_right_mono)
  moreover have "real_of_int (2 ^ 23) = pow2 (int 23)" by (simp add: pow2_23)
  moreover have "pow2 (int 23) * pow2 (?e - 23) = pow2 ?e"
    by (rule pow2_mult) simp
  ultimately show ?thesis using assms(1) by (simp add: round_float32_def)
qed

lemma round_float32_nonneg: "0 \<le> x \<Longrightarrow> 0 \<le> round_float32 x"
proof -
  assume x: "0 \<le> x"
  have "real_of_int 0 \<le> x * pow2 (23 - float32_exponent x)"
    using x pow2_pos [of "23 - float32_exponent x"] by simp
  then have "0 \<le> round_half_even (x * pow2 (23 - float32_exponent x))"
    by (rule round_half_even_ge)
  then show ?thesis using pow2_pos [of "float32_exponent x - 23"]
    by (simp add: round_float32_def)
qed

lemma round_float32_mono:
  assumes "0 < u" and "u \<le> v"
  shows "round_float32 u \<le> round_float32 v"
proof (cases "float32_exponent u = float32_exponent v")
  case True
  let ?e = "float32_exponent v"
  have "u * pow2 (23 - ?e) \<le> v * pow2 (23 - ?e)"
    using assms(2) pow2_pos [of "23 - ?e"] by (simp add: mult_right_mono)
  then have "round_half_even (u * pow2 (23 - ?e)) \<le> round_half_even (v * pow2 (23 - ?e))"
    by (rule round_half_even_mono)
  then have "real_of_int (round_half_even (u * pow2 (23 - ?e)))
      \<le> real_of_int (round_half_even (v * pow2 (23 - ?e)))"
    by (simp only: of_int_le_iff)
  then have "real_of_int (round_half_even (u * pow2 (23 - ?e))) * pow2 (?e - 23)
      \<le> real_of_int (round_half_even (v * pow2 (23 - ?e))) * pow2 (?e - 23)"
    using pow2_pos [of "?e - 23"] by (simp add: mult_right_mono)
  then show ?thesis using assms True by (simp add: round_float32_def)
next
  case False
  have v: "0 < v" using assms by simp
  have lt: "float32_exponent u < float32_exponent v"
    using False float32_exponent_mono [OF assms] by simp
  have "- 126 \<le> float32_exponent u" by (simp add: float32_exponent_def)
  with lt have big: "- 126 < float32_exponent v" by simp
  have "round_float32 u \<le> pow2 (float32_exponent u + 1)"
    using round_float32_upper [OF assms(1)] float32_exponent_bounds(1) [of u] assms(1) by simp
  also have "\<dots> \<le> pow2 (float32_exponent v)"
    using lt by (intro pow2_mono) simp
  also have "\<dots> \<le> round_float32 v"
    using round_float32_lower [OF v] float32_exponent_bounds(2) [of v, OF _ big] v by simp
  finally show ?thesis .
qed

text \<open>A number with a significand of 24 bits and an exponent in range is not changed.\<close>

lemma round_float32_exact:
  assumes "x = of_int m * pow2 (e - 23)" and "2 ^ 23 \<le> \<bar>m\<bar>" and "\<bar>m\<bar> < 2 ^ 24"
    and "- 126 \<le> e"
  shows "round_float32 x = x"
proof -
  have m0: "m \<noteq> 0" using assms(2) by auto
  have ax: "\<bar>x\<bar> = real_of_int \<bar>m\<bar> * pow2 (e - 23)"
    using pow2_pos [of "e - 23"] by (simp add: assms(1) abs_mult)
  have "real_of_int (2 ^ 23) \<le> real_of_int \<bar>m\<bar>" using assms(2) by (simp only: of_int_le_iff)
  then have "real_of_int (2 ^ 23) * pow2 (e - 23) \<le> \<bar>x\<bar>"
    unfolding ax using pow2_pos [of "e - 23"] by (simp add: mult_right_mono)
  moreover have "real_of_int (2 ^ 23) * pow2 (e - 23) = pow2 e"
  proof -
    have "pow2 23 * pow2 (e - 23) = pow2 e" by (rule pow2_mult) simp
    then show ?thesis by (simp add: pow2_23)
  qed
  ultimately have lo: "pow2 e \<le> \<bar>x\<bar>" by simp
  have "real_of_int \<bar>m\<bar> < real_of_int (2 ^ 24)" using assms(3) by (simp only: of_int_less_iff)
  then have "\<bar>x\<bar> < real_of_int (2 ^ 24) * pow2 (e - 23)"
    unfolding ax using pow2_pos [of "e - 23"] by (simp add: mult_strict_right_mono)
  moreover have "real_of_int (2 ^ 24) * pow2 (e - 23) = pow2 (e + 1)"
  proof -
    have "pow2 24 * pow2 (e - 23) = pow2 (e + 1)" by (rule pow2_mult) simp
    then show ?thesis by (simp add: pow2_24)
  qed
  ultimately have hi: "\<bar>x\<bar> < pow2 (e + 1)" by simp
  have e: "float32_exponent x = e" using lo hi assms(4) by (rule float32_exponent_eq)
  have "pow2 (e - 23) * pow2 (23 - e) = pow2 0" by (rule pow2_mult) simp
  then have "pow2 (e - 23) * pow2 (23 - e) = 1" by (simp add: pow2_def)
  then have sc: "x * pow2 (23 - e) = real_of_int m"
    by (simp add: assms(1) mult.assoc)
  have x0: "x \<noteq> 0" using lo pow2_pos [of e] by auto
  have "round_float32 x = real_of_int (round_half_even (x * pow2 (23 - e))) * pow2 (e - 23)"
    using x0 by (simp add: round_float32_def e)
  also have "\<dots> = real_of_int m * pow2 (e - 23)"
    by (simp only: sc round_half_even_of_int)
  also have "\<dots> = x" by (simp add: assms(1))
  finally show ?thesis .
qed

lemma round_float32_one: "round_float32 1 = 1"
proof (rule round_float32_exact [where m = "2 ^ 23" and e = 0])
  show "(1 :: real) = real_of_int (2 ^ 23) * pow2 (0 - 23)"
    using pow2_neg [of 23] by simp
qed simp_all

lemma round_float32_half: "round_float32 (1 / 2) = 1 / 2"
proof (rule round_float32_exact [where m = "2 ^ 23" and e = "- 1"])
  show "(1 / 2 :: real) = real_of_int (2 ^ 23) * pow2 (- 1 - 23)"
    using pow2_neg [of 24] by simp
qed simp_all

lemma round_float32_unit:
  assumes "0 \<le> x" and "x \<le> 1"
  shows "0 \<le> round_float32 x \<and> round_float32 x \<le> 1"
proof (cases "x = 0")
  case True
  then show ?thesis by (simp add: round_float32_def)
next
  case False
  then have pos: "0 < x" using assms(1) by simp
  have "round_float32 x \<le> round_float32 1" using pos assms(2) by (rule round_float32_mono)
  with round_float32_one round_float32_nonneg [OF assms(1)] show ?thesis by simp
qed


text \<open>Between one half and one the rounding error is at most \<open>2^-25\<close>.\<close>

lemma round_float32_error:
  assumes "1 / 2 \<le> x" and "x < 1"
  shows "\<bar>round_float32 x - x\<bar> \<le> 1 / 2 ^ 25"
proof -
  have e: "float32_exponent x = - 1"
  proof (rule float32_exponent_eq)
    show "pow2 (- 1) \<le> \<bar>x\<bar>" using assms(1) pow2_neg [of 1] by simp
    show "\<bar>x\<bar> < pow2 (- 1 + 1)" using assms by (simp add: pow2_def)
  qed simp
  have x0: "x \<noteq> 0" using assms(1) by simp
  have r: "round_float32 x = real_of_int (round_half_even (x * 2 ^ 24)) / 2 ^ 24"
    using x0 by (simp add: round_float32_def e pow2_24 pow2_m24)
  have "\<bar>real_of_int (round_half_even (x * 2 ^ 24)) - x * 2 ^ 24\<bar> \<le> 1 / 2"
    by (rule round_half_even_error)
  then have "\<bar>real_of_int (round_half_even (x * 2 ^ 24)) - x * 2 ^ 24\<bar> / 2 ^ 24 \<le> (1 / 2) / 2 ^ 24"
    by (simp add: divide_right_mono)
  moreover have "\<bar>real_of_int (round_half_even (x * 2 ^ 24)) - x * 2 ^ 24\<bar> / 2 ^ 24
      = \<bar>round_float32 x - x\<bar>"
  proof -
    have "round_float32 x - x = (real_of_int (round_half_even (x * 2 ^ 24)) - x * 2 ^ 24) / 2 ^ 24"
      unfolding r by (simp add: diff_divide_distrib)
    then show ?thesis by (simp only: abs_divide) simp
  qed
  ultimately show ?thesis by simp
qed

text \<open>The cast on the values that occur below.\<close>

lemma astype_float32_unit:
  assumes "0 \<le> x" and "x \<le> 1"
  shows "astype_float32 (Fl x) = Fl (round_float32 x)"
proof -
  have "\<bar>round_float32 x\<bar> \<le> 1" using round_float32_unit [OF assms] by simp
  moreover have "(1 :: real) < 2 ^ 128" by simp
  ultimately have "\<not> 2 ^ 128 \<le> \<bar>round_float32 x\<bar>" by linarith
  then show ?thesis by (simp add: Let_def)
qed

lemma astype_float32_exact:
  assumes "round_float32 x = x" and "\<bar>x\<bar> < 2 ^ 128"
  shows "astype_float32 (Fl x) = Fl x"
  using assms by (simp add: Let_def)



lemma astype_float32_half: "astype_float32 (Fl (1 / 2)) = Fl (1 / 2)"
  by (rule astype_float32_exact) (simp_all add: round_float32_half)



lemma round_float32_idem:
  assumes "1 / 2 \<le> x" and "x < 1"
  shows "round_float32 (round_float32 x) = round_float32 x"
proof -
  have e: "float32_exponent x = - 1"
  proof (rule float32_exponent_eq)
    show "pow2 (- 1) \<le> \<bar>x\<bar>" using assms(1) pow2_neg [of 1] by simp
    show "\<bar>x\<bar> < pow2 (- 1 + 1)" using assms by (simp add: pow2_def)
  qed simp
  have x0: "x \<noteq> 0" using assms(1) by simp
  define m where "m = round_half_even (x * 2 ^ 24)"
  have r: "round_float32 x = real_of_int m * pow2 (- 1 - 23)"
    using x0 by (simp add: round_float32_def e pow2_24 m_def)
  have "real_of_int (2 ^ 23) \<le> x * 2 ^ 24" using assms(1) by simp
  then have lo: "2 ^ 23 \<le> m" unfolding m_def by (rule round_half_even_ge)
  have "x * 2 ^ 24 \<le> real_of_int (2 ^ 24)" using assms(2) by simp
  then have hi: "m \<le> 2 ^ 24" unfolding m_def by (rule round_half_even_le)
  show ?thesis
  proof (cases "m = 2 ^ 24")
    case True
    then have "round_float32 x = 1" using r by (simp add: pow2_m24)
    then show ?thesis by (simp add: round_float32_one)
  next
    case False
    with hi have "m < 2 ^ 24" by simp
    then show ?thesis using r lo by (intro round_float32_exact [where m = m and e = "- 1"]) simp_all
  qed
qed

lemma astype_float32_p: "astype_float32 (Fl (round_float32 (73 / 100))) = Fl (round_float32 (73 / 100))"
proof (rule astype_float32_exact)
  show "round_float32 (round_float32 (73 / 100)) = round_float32 (73 / 100)"
    by (rule round_float32_idem) simp_all
  have "\<bar>round_float32 (73 / 100)\<bar> \<le> 1" using round_float32_unit [of "73 / 100"] by simp
  then show "\<bar>round_float32 (73 / 100)\<bar> < 2 ^ 128" by simp
qed

lemma astype_float32_10: "astype_float32 (Fl 10) = Fl 10"
proof (rule astype_float32_exact)
  show "round_float32 10 = 10"
  proof (rule round_float32_exact [where m = 10485760 and e = 3])
    show "(10 :: real) = real_of_int 10485760 * pow2 (3 - 23)" using pow2_neg [of 20] by simp
  qed simp_all
qed simp

lemma astype_float32_15: "astype_float32 (Fl 15) = Fl 15"
proof (rule astype_float32_exact)
  show "round_float32 15 = 15"
  proof (rule round_float32_exact [where m = 15728640 and e = 3])
    show "(15 :: real) = real_of_int 15728640 * pow2 (3 - 23)" using pow2_neg [of 20] by simp
  qed simp_all
qed simp

lemma astype_float32_300: "astype_float32 (Fl 300) = Fl 300"
proof (rule astype_float32_exact)
  show "round_float32 300 = 300"
  proof (rule round_float32_exact [where m = 9830400 and e = 8])
    show "(300 :: real) = real_of_int 9830400 * pow2 (8 - 23)" using pow2_neg [of 15] by simp
  qed simp_all
qed simp

lemma np_scalar_exact: "astype_float32 t = t \<Longrightarrow> np_scalar d t = t"
  by (cases d) simp_all

section \<open>The tile loops\<close>

lemma for_loop_total: "for_loop offs (\<lambda>i s. Inr (f i s)) s = Inr (fold f offs s)"
  by (induction offs arbitrary: s) simp_all

lemma range_from_count_before:
  "c < i \<Longrightarrow> filter (span_hits n step c) (range_from i n step) = []"
proof (induction i n step rule: range_from.induct)
  case (1 i stop step)
  show ?case
  proof (cases "step = 0 \<or> stop \<le> i")
    case True
    then show ?thesis by (simp add: range_from.simps [of i stop step])
  next
    case False
    with 1 show ?thesis
      by (simp add: range_from.simps [of i stop step] span_hits_def)
  qed
qed

lemma range_from_count:
  "0 < step \<Longrightarrow> i \<le> c \<Longrightarrow>
   length (filter (span_hits n step c) (range_from i n step)) = (if c < n then 1 else 0)"
proof (induction i n step rule: range_from.induct)
  case (1 i stop step)
  show ?case
  proof (cases "stop \<le> i")
    case True
    with 1 show ?thesis by (simp add: range_from.simps [of i stop step])
  next
    case False
    note ni = this
    have unf: "range_from i stop step = i # range_from (i + step) stop step"
      using ni 1(2) by (simp add: range_from.simps [of i stop step])
    show ?thesis
    proof (cases "c < i + step")
      case True
      have rest: "filter (span_hits stop step c) (range_from (i + step) stop step) = []"
        using True by (rule range_from_count_before)
      have hd: "span_hits stop step c i \<longleftrightarrow> c < stop"
        using True 1(3) ni by (auto simp add: span_hits_def)
      show ?thesis unfolding unf using rest hd by simp
    next
      case False
      have hd: "\<not> span_hits stop step c i"
        using False by (simp add: span_hits_def)
      have "length (filter (span_hits stop step c) (range_from (i + step) stop step))
              = (if c < stop then 1 else 0)"
        using 1(1) [OF _ 1(2)] ni 1(2) False by simp
      then show ?thesis unfolding unf using hd by simp
    qed
  qed
qed


lemma for_range_pos:
  "0 < step \<Longrightarrow> for_range n (int step) (\<lambda>i s. Inr (f i s)) s = Inr (fold f (range_from 0 n step) s)"
  by (simp add: for_range_def py_range_def for_loop_total)

lemma in_window_iff:
  "in_window (xoff, yoff, cols, rows) x y
     \<longleftrightarrow> xoff \<le> x \<and> x < xoff + cols \<and> yoff \<le> y \<and> y < yoff + rows"
  by (simp add: in_window_def)

lemma write_row:
  assumes "\<And>x. ncols (mk x) = cx x" and "\<And>x. nrows (mk x) = rows"
    and "\<And>x i j. elem (mk x) i j = v (x + j) (y + i)"
  shows "fold (\<lambda>x out. WriteArray (mk x) x y out) xs out =
     out\<lparr>out_cell := (\<lambda>c r. if \<exists>x\<in>set xs. in_window (x, y, cx x, rows) c r
                              then Some (v c r) else out_cell out c r),
         written := written out @ map (\<lambda>x. (x, y, cx x, rows)) xs\<rparr>"
proof (induction xs arbitrary: out)
  case Nil
  show ?case by simp
next
  case (Cons x xs)
  have cellx: "out_cell (WriteArray (mk x) x y out) =
      (\<lambda>c r. if in_window (x, y, cx x, rows) c r then Some (v c r) else out_cell out c r)"
    by (auto simp add: WriteArray_def assms in_window_iff fun_eq_iff)
  have wr: "written (WriteArray (mk x) x y out) = written out @ [(x, y, cx x, rows)]"
    by (simp add: WriteArray_def assms)
  have rest: "\<And>f g. (WriteArray (mk x) x y out)\<lparr>out_cell := f, written := g\<rparr>
      = out\<lparr>out_cell := f, written := g\<rparr>"
    by (simp add: WriteArray_def)
  show ?case
    by (simp add: Cons.IH cellx wr rest fun_eq_iff cong: if_cong)
qed


lemma write_grid:
  assumes "\<And>x y. ncols (mk x y) = cx x" and "\<And>x y. nrows (mk x y) = ry y"
    and "\<And>x y i j. elem (mk x y) i j = v (x + j) (y + i)"
  shows "fold (\<lambda>y out. fold (\<lambda>x out. WriteArray (mk x y) x y out) xs out) ys out =
     out\<lparr>out_cell := (\<lambda>c r. if \<exists>y\<in>set ys. \<exists>x\<in>set xs. in_window (x, y, cx x, ry y) c r
                              then Some (v c r) else out_cell out c r),
         written := written out @ concat (map (\<lambda>y. map (\<lambda>x. (x, y, cx x, ry y)) xs) ys)\<rparr>"
proof (induction ys arbitrary: out)
  case Nil
  show ?case by simp
next
  case (Cons y ys)
  have row: "\<And>out. fold (\<lambda>x out. WriteArray (mk x y) x y out) xs out =
     out\<lparr>out_cell := (\<lambda>c r. if \<exists>x\<in>set xs. in_window (x, y, cx x, ry y) c r
                              then Some (v c r) else out_cell out c r),
         written := written out @ map (\<lambda>x. (x, y, cx x, ry y)) xs\<rparr>"
    by (rule write_row) (simp_all add: assms)
  show ?case
    by (simp add: Cons.IH row fun_eq_iff cong: if_cong)
qed

lemma span_hits_ex:
  "0 < step \<Longrightarrow> (\<exists>off\<in>set (range_from 0 n step). span_hits n step c off) \<longleftrightarrow> c < n"
proof -
  assume "0 < step"
  then have "length (filter (span_hits n step c) (range_from 0 n step)) = (if c < n then 1 else 0)"
    by (simp add: range_from_count)
  moreover have "(\<exists>off\<in>set (range_from 0 n step). span_hits n step c off)
      \<longleftrightarrow> filter (span_hits n step c) (range_from 0 n step) \<noteq> []"
    by (simp add: filter_empty_conv)
  ultimately show ?thesis by (auto split: if_splits)
qed

lemma tile_hits:
  "in_window (x, y, min bx (W - x), min by (H - y)) c r
     \<longleftrightarrow> span_hits W bx c x \<and> span_hits H by r y"
  by (simp add: in_window_iff span_hits_def)

lemma tiles_cover:
  assumes "0 < bx" and "0 < by"
  shows "(\<exists>y\<in>set (range_from 0 H by). \<exists>x\<in>set (range_from 0 W bx).
            in_window (x, y, min bx (W - x), min by (H - y)) c r) \<longleftrightarrow> c < W \<and> r < H"
  using span_hits_ex [OF assms(1), of W c] span_hits_ex [OF assms(2), of H r]
  by (auto simp add: tile_hits)

lemma tile_loop:
  assumes "0 < bx" and "0 < by"
    and "\<And>x y cols rows. ncols (mk x y cols rows) = cols"
    and "\<And>x y cols rows. nrows (mk x y cols rows) = rows"
    and "\<And>x y cols rows i j. elem (mk x y cols rows) i j = v (x + j) (y + i)"
  shows "for_range H (int by) (\<lambda>y out.
           for_range W (int bx) (\<lambda>x out.
             Inr (WriteArray (mk x y (min bx (W - x)) (min by (H - y))) x y out)) out) out0
     = Inr (out0\<lparr>out_cell := (\<lambda>c r. if c < W \<and> r < H then Some (v c r) else out_cell out0 c r),
                 written := written out0 @ grid_tiles W H bx by\<rparr>)"
proof -
  have "fold (\<lambda>y out. fold (\<lambda>x out.
            WriteArray (mk x y (min bx (W - x)) (min by (H - y))) x y out)
              (range_from 0 W bx) out) (range_from 0 H by) out0 =
     out0\<lparr>out_cell := (\<lambda>c r. if \<exists>y\<in>set (range_from 0 H by). \<exists>x\<in>set (range_from 0 W bx).
                                 in_window (x, y, min bx (W - x), min by (H - y)) c r
                              then Some (v c r) else out_cell out0 c r),
         written := written out0 @ concat (map (\<lambda>y. map (\<lambda>x. (x, y, min bx (W - x), min by (H - y)))
                      (range_from 0 W bx)) (range_from 0 H by))\<rparr>"
    by (rule write_grid) (simp_all add: assms)
  then show ?thesis
    using assms(1,2) by (simp add: Let_def for_range_pos tiles_cover grid_tiles_def)
qed


section \<open>The blend\<close>

lemma blend_tile_shape:
  "ncols (blend_tile base weight nodata s n eps x y cols rows) = cols"
  "nrows (blend_tile base weight nodata s n eps x y cols rows) = rows"
  by (simp_all add: blend_tile_def Let_def arr_map_def arr_map2_def ReadAsArray_def)

lemma blend_tile_elem:
  "elem (blend_tile base weight (NoDataValue base) s n eps x y cols rows) i j
     = blend_cell base weight s n eps (x + j) (y + i)"
  by (simp add: blend_tile_def Let_def arr_map_def arr_map2_def ReadAsArray_def
      blend_formula_def blend_cell_def)

lemma blend_probabilities_result:
  assumes "0 < fst (BlockSize base)" and "0 < snd (BlockSize base)"
    and "RasterXSize base = RasterXSize weight" and "RasterYSize base = RasterYSize weight"
    and "GeoTransform base = GeoTransform weight"
  shows "blend_probabilities (Some base) (Some weight) s n eps =
    Inr \<lparr>out_xsize = RasterXSize base, out_ysize = RasterYSize base,
         out_gt = GeoTransform base, out_proj = Projection base,
         out_nodata = NoDataValue base,
         out_cell = (\<lambda>c r. if c < RasterXSize base \<and> r < RasterYSize base
                            then Some (blend_cell base weight s n eps c r) else None),
         written = grid_tiles (RasterXSize base) (RasterYSize base)
                     (fst (BlockSize base)) (snd (BlockSize base))\<rparr>"
proof -
  note loop = tile_loop [OF assms(1,2),
      where mk = "\<lambda>x y cols rows. blend_tile base weight (NoDataValue base) s n eps x y cols rows"
        and v = "blend_cell base weight s n eps",
      OF blend_tile_shape blend_tile_elem]
  show ?thesis
    using assms(3,4,5)
    by (simp add: blend_probabilities_def open_base_raster_def Let_def loop cong: if_cong)
qed

lemma exp_minus_one_bounds: "3678 / 10000 < exp (- 1 :: real) \<and> exp (- 1 :: real) < 36794 / 100000"
proof -
  obtain t :: real where t: "\<bar>t\<bar> \<le> \<bar>- 1 :: real\<bar>"
    and e: "exp (- 1 :: real) = (\<Sum>m<8. (- 1) ^ m / fact m) + (exp t / fact 8) * (- 1) ^ 8"
    using Maclaurin_exp_le [of "- 1" 8] by blast
  have s: "(\<Sum>m<8. (- 1 :: real) ^ m / fact m) = 103 / 280"
    by (simp add: eval_nat_numeral fact_numeral)
  have "t \<le> 1" using t by simp
  then have "exp t \<le> exp 1" by simp
  also have "\<dots> \<le> 3" by (rule exp_le)
  finally have up: "exp t \<le> 3" .
  have lo: "0 < exp t" by simp
  have f: "fact 8 = (40320 :: real)" by (simp add: eval_nat_numeral)
  have eq: "exp (- 1 :: real) = 103 / 280 + exp t / 40320"
    using e s f by simp
  have r1: "0 < exp t / 40320" by simp
  have r2: "exp t / 40320 \<le> 3 / 40320" using up by simp
  show ?thesis unfolding eq using r1 r2 by linarith
qed


lemma np_clip_not_nan:
  assumes "p \<noteq> NaN"
  shows "np_clip p (Fl e) (fl_sub (Fl 1) (Fl e)) =
     Fl (case p of Fl a \<Rightarrow> min (1 - e) (max a e) | PInf \<Rightarrow> 1 - e | _ \<Rightarrow> min (1 - e) e)"
  using assms
  by (cases p) (auto simp add: np_clip_def np_maximum_def np_minimum_def fl_sub_def)


lemma blend_formula_unit:
  assumes "np_clip p (Fl e) (fl_sub (Fl 1) (Fl e)) = Fl q" and "0 < q" and "q < 1"
    and "(if fl_gt w (Fl 0) then w else Fl n) = Fl w'"
  shows "blend_formula p w (Fl s) (Fl n) (Fl e) =
     Fl (1 / (1 + exp (- (ln (q / (1 - q)) + s * (w' - n)))))"
proof -
  have pos: "0 < q / (1 - q)" using assms(2,3) by simp
  have ne: "1 + exp (- (ln (q / (1 - q)) + s * (w' - n))) \<noteq> 0"
    using exp_gt_zero [of "- (ln (q / (1 - q)) + s * (w' - n))"] by linarith
  have ne': "1 + exp (- ln (q / (1 - q)) - s * (w' - n)) \<noteq> 0"
    using exp_gt_zero [of "- ln (q / (1 - q)) - s * (w' - n)"] by linarith
  show ?thesis
    using assms pos ne ne' by (simp add: blend_formula_def Let_def fl_sub_def)
qed

lemma logistic_unit: "0 < 1 / (1 + exp (- t :: real)) \<and> 1 / (1 + exp (- t :: real)) < 1"
proof -
  have x: "0 < exp (- t)" by simp
  then have d: "0 < 1 + exp (- t)" by linarith
  have "1 / (1 + exp (- t)) < 1"
    using x d by (simp add: pos_divide_less_eq)
  moreover have "0 < 1 / (1 + exp (- t))" using d by simp
  ultimately show ?thesis by simp
qed




lemma blend_cell_of:
  assumes "0 < fst (BlockSize base)" and "0 < snd (BlockSize base)"
    and "RasterXSize base = RasterXSize weight" and "RasterYSize base = RasterYSize weight"
    and "GeoTransform base = GeoTransform weight"
    and "x < RasterXSize base" and "y < RasterYSize base"
  shows "cell_of (blend_probabilities (Some base) (Some weight) s n eps) x y
     = Inr (Some (blend_cell base weight s n eps x y))"
  using assms(6,7)
  by (simp add: blend_probabilities_result [OF assms(1-5)] cell_of_def)

lemma logistic_one: "73102 / 100000 < 1 / (1 + exp (- 1 :: real))
    \<and> 1 / (1 + exp (- 1 :: real)) < 73111 / 100000"
proof -
  have b: "3678 / 10000 < exp (- 1 :: real)" "exp (- 1 :: real) < 36794 / 100000"
    using exp_minus_one_bounds by simp_all
  have lo: "73102 / 100000 < 1 / (1 + exp (- 1 :: real))"
    using b by (simp add: pos_less_divide_eq)
  have hi: "1 / (1 + exp (- 1 :: real)) < 73111 / 100000"
    using b by (simp add: pos_divide_less_eq)
  show ?thesis using lo hi by simp
qed

lemma logistic_one_float32:
  "\<bar>1 / (1 + exp (- 1 :: real)) - 7311 / 10000\<bar> < 1 / 10000
   \<and> \<bar>round_float32 (1 / (1 + exp (- 1))) - 7311 / 10000\<bar> < 1 / 10000"
proof -
  let ?v = "1 / (1 + exp (- 1 :: real))"
  have b: "73102 / 100000 < ?v" "?v < 73111 / 100000" using logistic_one by simp_all
  have "\<bar>round_float32 ?v - ?v\<bar> \<le> 1 / 2 ^ 25"
    by (rule round_float32_error) (use b in simp_all)
  moreover have "(1 / 2 ^ 25 :: real) < 1 / 100000" by simp
  ultimately have r: "\<bar>round_float32 ?v - ?v\<bar> < 1 / 100000" by linarith
  show ?thesis using b r unfolding abs_less_iff by linarith
qed

lemma astype_logistic:
  "astype_float32 (Fl (1 / (1 + exp (- t)))) = Fl (round_float32 (1 / (1 + exp (- t))))"
  using logistic_unit [of t] by (intro astype_float32_unit) simp_all


text \<open>
  Claim C1. With both rasters open on the same grid and a positive block size, every cell
  of the grid whose base value is not the nodata value receives, as a float32 number, the
  value of the formula \<open>1 / (1 + exp (- (ln (q / (1 - q)) + s * (w' - n))))\<close>, where
  \<open>q\<close> is the base value clamped into \<open>[eps, 1 - eps]\<close> and \<open>w'\<close> is the weight
  when it is strictly positive and the neutral value otherwise: first in the arithmetic of
  the program, for all values, then as a real number when the values are finite and
  \<open>0 < eps < 1\<close>. For \<open>p = 0.5\<close>, \<open>w = 1\<close>, \<open>s = 2\<close>, \<open>n = 0.5\<close> the formula
  gives \<open>1 / (1 + exp (- 1))\<close>; this number and the float32 number the cell holds are
  both \<open>0.7311\<close> to four decimal places.
\<close>

theorem blend_per_cell_formula:
  assumes "0 < fst (BlockSize base)" and "0 < snd (BlockSize base)"
    and "RasterXSize base = RasterXSize weight" and "RasterYSize base = RasterYSize weight"
    and "GeoTransform base = GeoTransform weight"
    and "x < RasterXSize base" and "y < RasterYSize base"
    and "\<not> fl_eq (cell base x y) (NoDataValue base)"
  shows "cell_of (blend_probabilities (Some base) (Some weight) s n eps) x y
           = Inr (Some (astype_float32
                          (blend_formula (cell base x y) (cell weight x y) s n eps)))
       \<and> (\<forall>p w s' n' e.
            cell base x y = Fl p \<and> cell weight x y = Fl w
            \<and> s = Fl s' \<and> n = Fl n' \<and> eps = Fl e \<and> 0 < e \<and> e < 1 \<longrightarrow>
            blend_formula (cell base x y) (cell weight x y) s n eps
              = Fl (1 / (1 + exp (- (ln (min (1 - e) (max p e) / (1 - min (1 - e) (max p e)))
                                      + s' * ((if 0 < w then w else n') - n')))))
            \<and> cell_of (blend_probabilities (Some base) (Some weight) s n eps) x y
              = Inr (Some (Fl (round_float32
                    (1 / (1 + exp (- (ln (min (1 - e) (max p e) / (1 - min (1 - e) (max p e)))
                                      + s' * ((if 0 < w then w else n') - n')))))))))
       \<and> (cell base x y = Fl (1 / 2) \<and> cell weight x y = Fl 1
            \<and> s = Fl 2 \<and> n = Fl (1 / 2) \<and> eps = Fl (1 / 1000000) \<longrightarrow>
            blend_formula (cell base x y) (cell weight x y) s n eps = Fl (1 / (1 + exp (- 1)))
            \<and> cell_of (blend_probabilities (Some base) (Some weight) s n eps) x y
              = Inr (Some (Fl (round_float32 (1 / (1 + exp (- 1))))))
            \<and> \<bar>1 / (1 + exp (- 1 :: real)) - 7311 / 10000\<bar> < 1 / 10000
            \<and> \<bar>round_float32 (1 / (1 + exp (- 1))) - 7311 / 10000\<bar> < 1 / 10000)"
proof -
  have c: "cell_of (blend_probabilities (Some base) (Some weight) s n eps) x y
           = Inr (Some (astype_float32
                          (blend_formula (cell base x y) (cell weight x y) s n eps)))"
    using assms(8) by (simp add: blend_cell_of [OF assms(1-7)] blend_cell_def)
  have r: "blend_formula (Fl p) (Fl w) (Fl s') (Fl n') (Fl e)
      = Fl (1 / (1 + exp (- (ln (min (1 - e) (max p e) / (1 - min (1 - e) (max p e)))
                                               + s' * ((if 0 < w then w else n') - n')))))"
    if "0 < e" "e < 1" for p w s' n' e
  proof (rule blend_formula_unit)
    show "np_clip (Fl p) (Fl e) (fl_sub (Fl 1) (Fl e)) = Fl (min (1 - e) (max p e))"
      by (simp add: np_clip_not_nan)
    show "0 < min (1 - e) (max p e)" using that by auto
    show "min (1 - e) (max p e) < 1" using that by auto
    show "(if fl_gt (Fl w) (Fl 0) then Fl w else Fl n') = Fl (if 0 < w then w else n')"
      by (simp add: fl_gt_def)
  qed
  have ex: "blend_formula (Fl (1 / 2)) (Fl 1) (Fl 2) (Fl (1 / 2)) (Fl (1 / 1000000))
      = Fl (1 / (1 + exp (- 1)))"
    by (simp add: r)
  have gen: "blend_formula (cell base x y) (cell weight x y) s n eps
              = Fl (1 / (1 + exp (- (ln (min (1 - e) (max p e) / (1 - min (1 - e) (max p e)))
                                      + s' * ((if 0 < w then w else n') - n')))))
            \<and> cell_of (blend_probabilities (Some base) (Some weight) s n eps) x y
              = Inr (Some (Fl (round_float32
                    (1 / (1 + exp (- (ln (min (1 - e) (max p e) / (1 - min (1 - e) (max p e)))
                                      + s' * ((if 0 < w then w else n') - n'))))))))"
    if "cell base x y = Fl p" "cell weight x y = Fl w" "s = Fl s'" "n = Fl n'" "eps = Fl e"
       "0 < e" "e < 1" for p w s' n' e
    unfolding c unfolding that(1-5) r [OF that(6,7)] by (simp only: astype_logistic simp_thms)
  have one: "blend_formula (cell base x y) (cell weight x y) s n eps = Fl (1 / (1 + exp (- 1)))
            \<and> cell_of (blend_probabilities (Some base) (Some weight) s n eps) x y
              = Inr (Some (Fl (round_float32 (1 / (1 + exp (- 1))))))"
    if "cell base x y = Fl (1 / 2)" "cell weight x y = Fl 1" "s = Fl 2" "n = Fl (1 / 2)"
       "eps = Fl (1 / 1000000)"
    unfolding c unfolding that ex by (simp only: astype_logistic simp_thms)
  show ?thesis
    using c gen one logistic_one_float32 by blast
qed

theorem blend_per_cell_formula_witness:
  "0 < fst (BlockSize example_base) \<and> 0 < snd (BlockSize example_base)
   \<and> RasterXSize example_base = RasterXSize example_weight
   \<and> RasterYSize example_base = RasterYSize example_weight
   \<and> GeoTransform example_base = GeoTransform example_weight
   \<and> 1 < RasterXSize example_base \<and> 2 < RasterYSize example_base
   \<and> \<not> fl_eq (cell example_base 1 2) (NoDataValue example_base)
   \<and> cell_of (blend_probabilities (Some example_base) (Some example_weight)
                (Fl 2) (Fl (1 / 2)) (Fl (1 / 1000000))) 1 2
       = Inr (Some (Fl (round_float32 (1 / (1 + exp (- 1))))))"
proof -
  have hyps: "0 < fst (BlockSize example_base)" "0 < snd (BlockSize example_base)"
    "RasterXSize example_base = RasterXSize example_weight"
    "RasterYSize example_base = RasterYSize example_weight"
    "GeoTransform example_base = GeoTransform example_weight"
    "1 < RasterXSize example_base" "2 < RasterYSize example_base"
    "\<not> fl_eq (cell example_base 1 2) (NoDataValue example_base)"
    by (simp_all add: example_base_def example_weight_def)
  have cells: "cell example_base 1 2 = Fl (1 / 2)" "cell example_weight 1 2 = Fl 1"
    by (simp_all add: example_base_def example_weight_def)
  have "cell_of (blend_probabilities (Some example_base) (Some example_weight)
                (Fl 2) (Fl (1 / 2)) (Fl (1 / 1000000))) 1 2
       = Inr (Some (Fl (round_float32 (1 / (1 + exp (- 1))))))"
    using blend_per_cell_formula [OF hyps, of "Fl 2" "Fl (1 / 2)" "Fl (1 / 1000000)"] cells
    by blast
  with hyps show ?thesis by blast
qed


section \<open>Loop invariants\<close>

lemma for_loop_invariant:
  assumes "for_loop offs body s = Inr s'" and "P s"
    and "\<And>i a b. P a \<Longrightarrow> body i a = Inr b \<Longrightarrow> P b"
  shows "P s'"
  using assms(1,2)
proof (induction offs arbitrary: s)
  case Nil
  then show ?case by simp
next
  case (Cons i offs)
  then show ?case
    by (auto split: sum.splits intro: assms(3))
qed

lemma for_range_invariant:
  assumes "for_range stop step body s = Inr s'" and "P s"
    and "\<And>i a b. P a \<Longrightarrow> body i a = Inr b \<Longrightarrow> P b"
  shows "P s'"
proof -
  obtain offs where "for_loop offs body s = Inr s'"
    using assms(1) by (auto simp add: for_range_def split: sum.splits)
  then show ?thesis using assms(2,3) by (rule for_loop_invariant)
qed

lemma for_loop_error:
  assumes "for_loop offs body s = Inl e"
  shows "\<exists>i a. body i a = Inl e"
  using assms
proof (induction offs arbitrary: s)
  case Nil
  then show ?case by simp
next
  case (Cons i offs)
  then show ?case by (auto split: sum.splits)
qed

lemma for_range_error:
  assumes "for_range stop step body s = Inl e"
  shows "e = ValueError \<or> (\<exists>i a. body i a = Inl e)"
proof (cases "py_range stop step")
  case (Inl e')
  then have "e' = ValueError" by (auto simp add: py_range_def split: if_splits)
  with Inl assms show ?thesis by (simp add: for_range_def)
next
  case (Inr offs)
  with assms have "for_loop offs body s = Inl e" by (simp add: for_range_def)
  then show ?thesis using for_loop_error by fast
qed

lemma tile_loops_metadata:
  assumes "for_range H sy (\<lambda>y out. for_range W sx (\<lambda>x out.
             Inr (WriteArray (mk x y) x y out)) out) out0 = Inr out'"
  shows "same_metadata out0 out'"
proof (rule for_range_invariant [OF assms, where P = "same_metadata out0"])
  show "same_metadata out0 out0" by (simp add: same_metadata_def)
next
  fix y a b
  assume a: "same_metadata out0 a"
    and b: "for_range W sx (\<lambda>x out. Inr (WriteArray (mk x y) x y out)) a = Inr b"
  show "same_metadata out0 b"
  proof (rule for_range_invariant [OF b, where P = "same_metadata out0"])
    show "same_metadata out0 a" by (rule a)
  next
    fix x c d
    assume "same_metadata out0 c" and "Inr (WriteArray (mk x y) x y c) = Inr d"
    then show "same_metadata out0 d"
      by (auto simp add: same_metadata_def WriteArray_def)
  qed
qed

lemma tile_loops_error:
  assumes "for_range H sy (\<lambda>y out. for_range W sx (\<lambda>x out.
             Inr (WriteArray (mk x y) x y out)) out) out0 = Inl e"
  shows "e = ValueError"
proof -
  from for_range_error [OF assms] show ?thesis
  proof
    assume "e = ValueError" then show ?thesis .
  next
    assume "\<exists>i a. for_range W sx (\<lambda>x out. Inr (WriteArray (mk x i) x i out)) a = Inl e"
    then obtain i a where "for_range W sx (\<lambda>x out. Inr (WriteArray (mk x i) x i out)) a = Inl e"
      by blast
    from for_range_error [OF this] show ?thesis by simp
  qed
qed

lemma fixtures_agree:
  "0 < fst (BlockSize gappy_base)" "0 < snd (BlockSize gappy_base)"
  "RasterXSize gappy_base = RasterXSize graded_weight"
  "RasterYSize gappy_base = RasterYSize graded_weight"
  "GeoTransform gappy_base = GeoTransform graded_weight"
  by (simp_all add: gappy_base_def graded_weight_def)

section \<open>Nodata, range and monotonicity of the blend\<close>











section \<open>Grid precondition and output metadata\<close>

lemma blend_probabilities_loops:
  assumes "RasterXSize base = RasterXSize weight" and "RasterYSize base = RasterYSize weight"
    and "GeoTransform base = GeoTransform weight"
  shows "blend_probabilities (Some base) (Some weight) s n eps =
     for_range (RasterYSize base) (int (snd (BlockSize base))) (\<lambda>y out.
       for_range (RasterXSize base) (int (fst (BlockSize base))) (\<lambda>x out.
         Inr (WriteArray
                (blend_tile base weight (NoDataValue base) s n eps x y
                   (min (fst (BlockSize base)) (RasterXSize base - x))
                   (min (snd (BlockSize base)) (RasterYSize base - y)))
                x y out)) out)
       \<lparr>out_xsize = RasterXSize base, out_ysize = RasterYSize base,
        out_gt = GeoTransform base, out_proj = Projection base,
        out_nodata = NoDataValue base, out_cell = (\<lambda>x y. None), written = []\<rparr>"
  using assms by (simp add: blend_probabilities_def open_base_raster_def Let_def)

lemma blend_probabilities_mismatch:
  "(\<exists>e. blend_probabilities (Some base) (Some weight) s n eps = Inl e \<and> is_GridMismatch e)
     \<longleftrightarrow> (RasterXSize base \<noteq> RasterXSize weight \<or> RasterYSize base \<noteq> RasterYSize weight
          \<or> GeoTransform base \<noteq> GeoTransform weight)"
proof (cases "RasterXSize base = RasterXSize weight \<and> RasterYSize base = RasterYSize weight
          \<and> GeoTransform base = GeoTransform weight")
  case True
  then have eq: "RasterXSize base = RasterXSize weight" "RasterYSize base = RasterYSize weight"
    "GeoTransform base = GeoTransform weight" by simp_all
  have "e = ValueError" if "blend_probabilities (Some base) (Some weight) s n eps = Inl e" for e
    using that unfolding blend_probabilities_loops [OF eq] by (rule tile_loops_error)
  then show ?thesis using True by (auto simp add: is_GridMismatch_def)
next
  case False
  then show ?thesis
    by (auto simp add: blend_probabilities_def open_base_raster_def Let_def is_GridMismatch_def)
qed

text \<open>
  Claim C5. With both rasters open, the blend fails with one of the two grid mismatch
  messages exactly when the widths, the heights or the geotransforms differ. When they are
  identical and the block size is positive, it returns an output in which every cell of the
  grid has been written.
\<close>

theorem blend_grid_precondition:
  "((\<exists>e. blend_probabilities (Some base) (Some weight) s n eps = Inl e \<and> is_GridMismatch e)
     \<longleftrightarrow> (RasterXSize base \<noteq> RasterXSize weight \<or> RasterYSize base \<noteq> RasterYSize weight
          \<or> GeoTransform base \<noteq> GeoTransform weight))
   \<and> (RasterXSize base = RasterXSize weight \<and> RasterYSize base = RasterYSize weight
        \<and> GeoTransform base = GeoTransform weight
        \<and> 0 < fst (BlockSize base) \<and> 0 < snd (BlockSize base) \<longrightarrow>
      (\<exists>out. blend_probabilities (Some base) (Some weight) s n eps = Inr out
         \<and> (\<forall>x < RasterXSize base. \<forall>y < RasterYSize base. out_cell out x y \<noteq> None)))"
proof -
  have "\<exists>out. blend_probabilities (Some base) (Some weight) s n eps = Inr out
         \<and> (\<forall>x < RasterXSize base. \<forall>y < RasterYSize base. out_cell out x y \<noteq> None)"
    if "RasterXSize base = RasterXSize weight" "RasterYSize base = RasterYSize weight"
       "GeoTransform base = GeoTransform weight"
       "0 < fst (BlockSize base)" "0 < snd (BlockSize base)"
    unfolding blend_probabilities_result [OF that(4,5,1,2,3)] by simp
  then show ?thesis using blend_probabilities_mismatch [of base weight s n eps] by blast
qed

text \<open>
  Claim C10. An output the blend returns has the width, height, geotransform, projection
  and nodata value of the base raster, and is the same output whatever the projection,
  nodata value and block size of the weight raster are.
\<close>

theorem blend_output_metadata:
  assumes "blend_probabilities (Some base) (Some weight) s n eps = Inr out"
  shows "out_xsize out = RasterXSize base \<and> out_ysize out = RasterYSize base
       \<and> out_gt out = GeoTransform base \<and> out_proj out = Projection base
       \<and> out_nodata out = NoDataValue base
       \<and> blend_probabilities (Some base)
           (Some (weight\<lparr>Projection := pr, NoDataValue := nd, BlockSize := bs\<rparr>)) s n eps
          = Inr out"
proof -
  have eq: "RasterXSize base = RasterXSize weight" "RasterYSize base = RasterYSize weight"
    "GeoTransform base = GeoTransform weight"
    using assms
    by (auto simp add: blend_probabilities_def open_base_raster_def Let_def split: if_splits)
  have "same_metadata
      \<lparr>out_xsize = RasterXSize base, out_ysize = RasterYSize base,
        out_gt = GeoTransform base, out_proj = Projection base,
        out_nodata = NoDataValue base, out_cell = (\<lambda>x y. None), written = []\<rparr> out"
    using assms unfolding blend_probabilities_loops [OF eq] by (rule tile_loops_metadata)
  then have m: "out_xsize out = RasterXSize base \<and> out_ysize out = RasterYSize base
       \<and> out_gt out = GeoTransform base \<and> out_proj out = Projection base
       \<and> out_nodata out = NoDataValue base"
    by (simp add: same_metadata_def)
  let ?w = "weight\<lparr>Projection := pr, NoDataValue := nd, BlockSize := bs\<rparr>"
  have eq': "RasterXSize base = RasterXSize ?w" "RasterYSize base = RasterYSize ?w"
    "GeoTransform base = GeoTransform ?w"
    using eq by simp_all
  have t: "blend_tile base ?w = blend_tile base weight"
    by (intro ext) (simp add: blend_tile_def Let_def ReadAsArray_def)
  have "blend_probabilities (Some base) (Some ?w) s n eps
      = blend_probabilities (Some base) (Some weight) s n eps"
    unfolding blend_probabilities_loops [OF eq] blend_probabilities_loops [OF eq'] t ..
  with m assms show ?thesis by simp
qed

theorem blend_grid_precondition_witness:
  "(\<exists>e. blend_probabilities (Some gappy_base) (Some (graded_weight\<lparr>RasterXSize := 5\<rparr>))
           (Fl 2) (Fl (1 / 2)) (Fl (1 / 1000000)) = Inl e \<and> is_GridMismatch e)
   \<and> (\<exists>out. blend_probabilities (Some gappy_base) (Some graded_weight)
           (Fl 2) (Fl (1 / 2)) (Fl (1 / 1000000)) = Inr out
         \<and> (\<forall>x < 4. \<forall>y < 4. out_cell out x y \<noteq> None))"
proof -
  have "RasterXSize gappy_base \<noteq> RasterXSize (graded_weight\<lparr>RasterXSize := 5\<rparr>)"
    by (simp add: gappy_base_def)
  then have "\<exists>e. blend_probabilities (Some gappy_base) (Some (graded_weight\<lparr>RasterXSize := 5\<rparr>))
           (Fl 2) (Fl (1 / 2)) (Fl (1 / 1000000)) = Inl e \<and> is_GridMismatch e"
    using blend_grid_precondition [of gappy_base "graded_weight\<lparr>RasterXSize := 5\<rparr>"
        "Fl 2" "Fl (1 / 2)" "Fl (1 / 1000000)"]
    by blast
  moreover have "RasterXSize gappy_base = 4" "RasterYSize gappy_base = 4"
    by (simp_all add: gappy_base_def)
  then have "\<exists>out. blend_probabilities (Some gappy_base) (Some graded_weight)
           (Fl 2) (Fl (1 / 2)) (Fl (1 / 1000000)) = Inr out
         \<and> (\<forall>x < 4. \<forall>y < 4. out_cell out x y \<noteq> None)"
    using blend_grid_precondition [of gappy_base graded_weight
        "Fl 2" "Fl (1 / 2)" "Fl (1 / 1000000)"] fixtures_agree
    by simp
  ultimately show ?thesis by blast
qed

theorem blend_output_metadata_witness:
  "\<exists>out. blend_probabilities (Some gappy_base) (Some graded_weight)
           (Fl 2) (Fl (1 / 2)) (Fl (1 / 1000000)) = Inr out
     \<and> out_xsize out = 4 \<and> out_ysize out = 4 \<and> out_gt out = (0, 1, 0, 0, 0, - 1)
     \<and> out_proj out = ''EPSG:32629'' \<and> out_nodata out = Fl (- 9999)
     \<and> Projection graded_weight = ''EPSG:4326'' \<and> NoDataValue graded_weight = Fl 0"
proof -
  obtain out where out: "blend_probabilities (Some gappy_base) (Some graded_weight)
           (Fl 2) (Fl (1 / 2)) (Fl (1 / 1000000)) = Inr out"
    using blend_probabilities_result [OF fixtures_agree] by blast
  have "out_xsize out = 4 \<and> out_ysize out = 4 \<and> out_gt out = (0, 1, 0, 0, 0, - 1)
     \<and> out_proj out = ''EPSG:32629'' \<and> out_nodata out = Fl (- 9999)"
    using blend_output_metadata [OF out] by (simp add: gappy_base_def)
  moreover have "Projection graded_weight = ''EPSG:4326'' \<and> NoDataValue graded_weight = Fl 0"
    by (simp add: graded_weight_def)
  ultimately show ?thesis using out by blast
qed

section \<open>The mask\<close>

lemma mask_tile_shape:
  "ncols (mask_tile p s h d sm hm dm x y cols rows) = cols"
  "nrows (mask_tile p s h d sm hm dm x y cols rows) = rows"
  by (simp_all add: mask_tile_def Let_def put_mask_def arr_map_def arr_map2_def ReadAsArray_def)

lemma mask_tile_elem:
  "elem (mask_tile p s h d sm hm dm x y cols rows) i j = mask_cell p s h d sm hm dm (x + j) (y + i)"
  by (simp add: mask_tile_def Let_def put_mask_def arr_map_def arr_map2_def ReadAsArray_def
      mask_cell_def admissible_def del: astype_float32.simps)

lemma apply_mask_result:
  assumes "0 < window"
  shows "apply_mask p s h d sm hm dm window =
    Inr \<lparr>out_xsize = RasterXSize p, out_ysize = RasterYSize p,
         out_gt = GeoTransform p, out_proj = Projection p, out_nodata = Fl 0,
         out_cell = (\<lambda>c r. if c < RasterXSize p \<and> r < RasterYSize p
                            then Some (mask_cell p s h d sm hm dm c r) else None),
         written = grid_tiles (RasterXSize p) (RasterYSize p) (nat window) (nat window)\<rparr>"
proof -
  have w: "window = int (nat window)" "0 < nat window" using assms by simp_all
  note loop = tile_loop [OF w(2) w(2),
      where mk = "\<lambda>x y cols rows. mask_tile p s h d sm hm dm x y cols rows"
        and v = "mask_cell p s h d sm hm dm",
      OF mask_tile_shape mask_tile_elem]
  have "apply_mask p s h d sm hm dm (int (nat window)) =
    Inr \<lparr>out_xsize = RasterXSize p, out_ysize = RasterYSize p,
         out_gt = GeoTransform p, out_proj = Projection p, out_nodata = Fl 0,
         out_cell = (\<lambda>c r. if c < RasterXSize p \<and> r < RasterYSize p
                            then Some (mask_cell p s h d sm hm dm c r) else None),
         written = grid_tiles (RasterXSize p) (RasterYSize p) (nat window) (nat window)\<rparr>"
    unfolding apply_mask_def Let_def nat_int loop by (simp cong: if_cong)
  then show ?thesis using w(1) by simp
qed

lemma mask_cell_of:
  assumes "0 < window" and "x < RasterXSize p" and "y < RasterYSize p"
  shows "cell_of (apply_mask p s h d sm hm dm window) x y
     = Inr (Some (mask_cell p s h d sm hm dm x y))"
  using assms(2,3) by (simp add: apply_mask_result [OF assms(1)] cell_of_def)

lemma terrain_sizes:
  "RasterXSize terrain_prob = 3" "RasterYSize terrain_prob = 2"
  by (simp_all add: terrain_prob_def)

lemma terrain_thresholds:
  "np_scalar (DataType terrain_slope) (Fl 10) = Fl 10"
  "np_scalar (DataType terrain_hand) (Fl 15) = Fl 15"
  "np_scalar (DataType terrain_dist) (Fl 300) = Fl 300"
  by (simp_all add: np_scalar_exact astype_float32_10 astype_float32_15 astype_float32_300
      del: astype_float32.simps)

text \<open>
  Claim C4. With a positive window, every cell of the grid holds the probability \<open>p\<close>
  as a float32 number if \<open>p\<close>, slope, hand and dist are all finite and each of
  slope, hand and dist is at most its threshold as numpy compares it (rounded to float32
  against a float32 band), and exactly \<open>0.0\<close> in every other case. When \<open>p\<close> and
  the thresholds are float32 numbers this is \<open>p\<close> itself under the admissibility
  condition of the specification, and then the output equals \<open>p\<close> exactly when the
  cell is admissible or \<open>p\<close> is \<open>0.0\<close>.
\<close>

theorem mask_admissibility:
  assumes "0 < window" and "x < RasterXSize p_src" and "y < RasterYSize p_src"
  shows "cell_of (apply_mask p_src s_src h_src d_src slope_max hand_max dist_max window) x y
       = Inr (Some (if admissible (cell p_src x y) (cell s_src x y) (cell h_src x y)
                         (cell d_src x y) (np_scalar (DataType s_src) slope_max)
                         (np_scalar (DataType h_src) hand_max)
                         (np_scalar (DataType d_src) dist_max)
                    then astype_float32 (cell p_src x y) else Fl 0))
     \<and> (astype_float32 slope_max = slope_max \<and> astype_float32 hand_max = hand_max
        \<and> astype_float32 dist_max = dist_max
        \<and> astype_float32 (cell p_src x y) = cell p_src x y \<longrightarrow>
          cell_of (apply_mask p_src s_src h_src d_src slope_max hand_max dist_max window) x y
            = Inr (Some (if admissible (cell p_src x y) (cell s_src x y) (cell h_src x y)
                              (cell d_src x y) slope_max hand_max dist_max
                         then cell p_src x y else Fl 0))
          \<and> (cell_of (apply_mask p_src s_src h_src d_src slope_max hand_max dist_max window) x y
                = Inr (Some (cell p_src x y))
              \<longleftrightarrow> admissible (cell p_src x y) (cell s_src x y) (cell h_src x y)
                    (cell d_src x y) slope_max hand_max dist_max
                  \<or> cell p_src x y = Fl 0))"
proof -
  have a: "cell_of (apply_mask p_src s_src h_src d_src slope_max hand_max dist_max window) x y
       = Inr (Some (if admissible (cell p_src x y) (cell s_src x y) (cell h_src x y)
                         (cell d_src x y) (np_scalar (DataType s_src) slope_max)
                         (np_scalar (DataType h_src) hand_max)
                         (np_scalar (DataType d_src) dist_max)
                    then astype_float32 (cell p_src x y) else Fl 0))"
    unfolding mask_cell_of [OF assms] by (simp only: mask_cell_def)
  have b: "cell_of (apply_mask p_src s_src h_src d_src slope_max hand_max dist_max window) x y
            = Inr (Some (if admissible (cell p_src x y) (cell s_src x y) (cell h_src x y)
                              (cell d_src x y) slope_max hand_max dist_max
                         then cell p_src x y else Fl 0))"
    if "astype_float32 slope_max = slope_max" "astype_float32 hand_max = hand_max"
       "astype_float32 dist_max = dist_max" "astype_float32 (cell p_src x y) = cell p_src x y"
    unfolding a by (simp only: np_scalar_exact that)
  have c: "cell_of (apply_mask p_src s_src h_src d_src slope_max hand_max dist_max window) x y
                = Inr (Some (cell p_src x y))
              \<longleftrightarrow> admissible (cell p_src x y) (cell s_src x y) (cell h_src x y)
                    (cell d_src x y) slope_max hand_max dist_max
                  \<or> cell p_src x y = Fl 0"
    if "astype_float32 slope_max = slope_max" "astype_float32 hand_max = hand_max"
       "astype_float32 dist_max = dist_max" "astype_float32 (cell p_src x y) = cell p_src x y"
    unfolding b [OF that] by auto
  show ?thesis using a b c by blast
qed

theorem mask_admissibility_witness:
  "cell terrain_prob 1 0 = Fl (round_float32 (73 / 100))
   \<and> cell_of (apply_mask terrain_prob terrain_slope terrain_hand terrain_dist
              (Fl 10) (Fl 15) (Fl 300) 1024) 1 0 = Inr (Some (Fl (round_float32 (73 / 100))))
   \<and> cell terrain_slope 0 0 = Fl 12
   \<and> cell_of (apply_mask terrain_prob terrain_slope terrain_hand terrain_dist
              (Fl 10) (Fl 15) (Fl 300) 1024) 0 0 = Inr (Some (Fl 0))
   \<and> cell terrain_hand 2 0 = NaN
   \<and> cell_of (apply_mask terrain_prob terrain_slope terrain_hand terrain_dist
              (Fl 10) (Fl 15) (Fl 300) 1024) 2 0 = Inr (Some (Fl 0))
   \<and> cell terrain_prob 1 1 = NaN
   \<and> cell_of (apply_mask terrain_prob terrain_slope terrain_hand terrain_dist
              (Fl 10) (Fl 15) (Fl 300) 1024) 1 1 = Inr (Some (Fl 0))"
proof -
  have w: "0 < (1024 :: int)" by simp
  have sz: "0 < RasterXSize terrain_prob" "1 < RasterXSize terrain_prob"
    "2 < RasterXSize terrain_prob" "0 < RasterYSize terrain_prob" "1 < RasterYSize terrain_prob"
    by (simp_all add: terrain_sizes)
  have cells: "cell terrain_prob 1 0 = Fl (round_float32 (73 / 100))"
    "cell terrain_prob 0 0 = Fl (round_float32 (73 / 100))"
    "cell terrain_prob 2 0 = Fl (round_float32 (73 / 100))" "cell terrain_prob 1 1 = NaN"
    "cell terrain_slope 1 0 = Fl 5" "cell terrain_slope 0 0 = Fl 12"
    "cell terrain_slope 2 0 = Fl 5" "cell terrain_slope 1 1 = Fl 5"
    "cell terrain_hand 1 0 = Fl 5" "cell terrain_hand 0 0 = Fl 5"
    "cell terrain_hand 2 0 = NaN" "cell terrain_hand 1 1 = Fl 5"
    "cell terrain_dist 1 0 = Fl 50" "cell terrain_dist 0 0 = Fl 50"
    "cell terrain_dist 2 0 = Fl 50" "cell terrain_dist 1 1 = Fl 50"
    by (simp_all add: terrain_prob_def terrain_slope_def terrain_hand_def terrain_dist_def)
  have a: "cell_of (apply_mask terrain_prob terrain_slope terrain_hand terrain_dist
              (Fl 10) (Fl 15) (Fl 300) 1024) 1 0 = Inr (Some (Fl (round_float32 (73 / 100))))"
    unfolding mask_admissibility [OF w sz(2,4), of terrain_slope terrain_hand terrain_dist
        "Fl 10" "Fl 15" "Fl 300", THEN conjunct1] cells terrain_thresholds
    by (simp add: admissible_def fl_le_def astype_float32_p del: astype_float32.simps)
  have b: "cell_of (apply_mask terrain_prob terrain_slope terrain_hand terrain_dist
              (Fl 10) (Fl 15) (Fl 300) 1024) 0 0 = Inr (Some (Fl 0))"
    unfolding mask_admissibility [OF w sz(1,4), of terrain_slope terrain_hand terrain_dist
        "Fl 10" "Fl 15" "Fl 300", THEN conjunct1] cells terrain_thresholds
    by (simp add: admissible_def fl_le_def astype_float32_p del: astype_float32.simps)
  have c: "cell_of (apply_mask terrain_prob terrain_slope terrain_hand terrain_dist
              (Fl 10) (Fl 15) (Fl 300) 1024) 2 0 = Inr (Some (Fl 0))"
    unfolding mask_admissibility [OF w sz(3,4), of terrain_slope terrain_hand terrain_dist
        "Fl 10" "Fl 15" "Fl 300", THEN conjunct1] cells terrain_thresholds
    by (simp add: admissible_def fl_le_def astype_float32_p del: astype_float32.simps)
  have d: "cell_of (apply_mask terrain_prob terrain_slope terrain_hand terrain_dist
              (Fl 10) (Fl 15) (Fl 300) 1024) 1 1 = Inr (Some (Fl 0))"
    unfolding mask_admissibility [OF w sz(2,5), of terrain_slope terrain_hand terrain_dist
        "Fl 10" "Fl 15" "Fl 300", THEN conjunct1] cells terrain_thresholds
    by (simp add: admissible_def fl_le_def astype_float32_p del: astype_float32.simps)
  from a b c d cells show ?thesis by simp
qed

text \<open>
  A cell of probability \<open>0.0\<close> and slope 12 degrees, over the threshold of 10: it is
  not admissible, and its output, \<open>0.0\<close>, equals its probability.
\<close>

theorem mask_admissibility_counterexample:
  "cell terrain_prob 0 1 = Fl 0 \<and> cell terrain_slope 0 1 = Fl 12
   \<and> \<not> admissible (cell terrain_prob 0 1) (cell terrain_slope 0 1) (cell terrain_hand 0 1)
         (cell terrain_dist 0 1) (Fl 10) (Fl 15) (Fl 300)
   \<and> cell_of (apply_mask terrain_prob terrain_slope terrain_hand terrain_dist
                (Fl 10) (Fl 15) (Fl 300) 1024) 0 1 = Inr (Some (cell terrain_prob 0 1))"
proof -
  have w: "0 < (1024 :: int)" by simp
  have sz: "0 < RasterXSize terrain_prob" "1 < RasterYSize terrain_prob"
    by (simp_all add: terrain_sizes)
  have c: "cell terrain_prob 0 1 = Fl 0" "cell terrain_slope 0 1 = Fl 12"
    by (simp_all add: terrain_prob_def terrain_slope_def)
  have n: "\<not> admissible (cell terrain_prob 0 1) (cell terrain_slope 0 1) (cell terrain_hand 0 1)
         (cell terrain_dist 0 1) (Fl 10) (Fl 15) (Fl 300)"
    unfolding c by (simp add: admissible_def fl_le_def)
  have "cell_of (apply_mask terrain_prob terrain_slope terrain_hand terrain_dist
                (Fl 10) (Fl 15) (Fl 300) 1024) 0 1 = Inr (Some (cell terrain_prob 0 1))"
    unfolding mask_cell_of [OF w sz] using n c(1)
    by (simp add: mask_cell_def terrain_thresholds del: astype_float32.simps)
  with c n show ?thesis by blast
qed

section \<open>Tiling\<close>

lemma count_row:
  "length (filter ((\<lambda>w. in_window w c r) \<circ> (\<lambda>x. (x, y, min bx (W - x), min by (H - y)))) xs)
     = (if span_hits H by r y then length (filter (span_hits W bx c) xs) else 0)"
proof -
  have "((\<lambda>w. in_window w c r) \<circ> (\<lambda>x. (x, y, min bx (W - x), min by (H - y))))
      = (\<lambda>x. span_hits W bx c x \<and> span_hits H by r y)"
    by (simp add: fun_eq_iff tile_hits)
  then show ?thesis by simp
qed

lemma count_grid:
  "length (filter (\<lambda>w. in_window w c r)
      (concat (map (\<lambda>y. map (\<lambda>x. (x, y, min bx (W - x), min by (H - y))) xs) ys)))
     = length (filter (span_hits W bx c) xs) * length (filter (span_hits H by r) ys)"
proof (induction ys)
  case Nil
  show ?case by simp
next
  case (Cons y ys)
  have "length (filter (\<lambda>w. in_window w c r)
      (concat (map (\<lambda>y. map (\<lambda>x. (x, y, min bx (W - x), min by (H - y))) xs) (y # ys))))
     = length (filter ((\<lambda>w. in_window w c r) \<circ> (\<lambda>x. (x, y, min bx (W - x), min by (H - y)))) xs)
       + length (filter (span_hits W bx c) xs) * length (filter (span_hits H by r) ys)"
    using Cons.IH by (simp add: filter_map)
  then show ?case unfolding count_row by simp
qed

lemma grid_tiles_partition:
  assumes "0 < bx" and "0 < by"
  shows "times_written (grid_tiles W H bx by) c r = (if c < W \<and> r < H then 1 else 0)"
  using range_from_count [OF assms(1), of 0 c W] range_from_count [OF assms(2), of 0 r H]
  by (simp add: times_written_def grid_tiles_def count_grid)

lemma blend_cell_block: "blend_cell (base\<lparr>BlockSize := b\<rparr>) weight = blend_cell base weight"
  by (simp add: fun_eq_iff blend_cell_def del: astype_float32.simps)

text \<open>
  Claim C8. The blend run with two positive block sizes of the base band, and the mask run
  with two positive window sizes, return outputs with the same cells: a cell of the grid
  holds a value that depends on the input cells at its own position only, and a cell
  outside the grid is never written. In each run every cell of the grid lies in exactly
  one of the windows written, and a cell outside the grid in none.
\<close>

theorem tiling_invariance:
  assumes "0 < fst b1" and "0 < snd b1" and "0 < fst b2" and "0 < snd b2"
    and "RasterXSize base = RasterXSize weight" and "RasterYSize base = RasterYSize weight"
    and "GeoTransform base = GeoTransform weight"
    and "0 < w1" and "0 < w2"
  shows "\<exists>o1 o2 m1 m2.
       blend_probabilities (Some (base\<lparr>BlockSize := b1\<rparr>)) (Some weight) s n eps = Inr o1
     \<and> blend_probabilities (Some (base\<lparr>BlockSize := b2\<rparr>)) (Some weight) s n eps = Inr o2
     \<and> out_cell o1 = out_cell o2
     \<and> out_cell o1 = (\<lambda>x y. if x < RasterXSize base \<and> y < RasterYSize base
                               then Some (blend_cell base weight s n eps x y) else None)
     \<and> (\<forall>x y. times_written (written o1) x y
                 = (if x < RasterXSize base \<and> y < RasterYSize base then 1 else 0))
     \<and> (\<forall>x y. times_written (written o2) x y
                 = (if x < RasterXSize base \<and> y < RasterYSize base then 1 else 0))
     \<and> apply_mask p_src s_src h_src d_src slope_max hand_max dist_max w1 = Inr m1
     \<and> apply_mask p_src s_src h_src d_src slope_max hand_max dist_max w2 = Inr m2
     \<and> out_cell m1 = out_cell m2
     \<and> out_cell m1 = (\<lambda>x y. if x < RasterXSize p_src \<and> y < RasterYSize p_src
                               then Some (mask_cell p_src s_src h_src d_src
                                            slope_max hand_max dist_max x y) else None)
     \<and> (\<forall>x y. times_written (written m1) x y
                 = (if x < RasterXSize p_src \<and> y < RasterYSize p_src then 1 else 0))
     \<and> (\<forall>x y. times_written (written m2) x y
                 = (if x < RasterXSize p_src \<and> y < RasterYSize p_src then 1 else 0))"
proof -
  have h1: "0 < fst (BlockSize (base\<lparr>BlockSize := b1\<rparr>))"
    "0 < snd (BlockSize (base\<lparr>BlockSize := b1\<rparr>))"
    "RasterXSize (base\<lparr>BlockSize := b1\<rparr>) = RasterXSize weight"
    "RasterYSize (base\<lparr>BlockSize := b1\<rparr>) = RasterYSize weight"
    "GeoTransform (base\<lparr>BlockSize := b1\<rparr>) = GeoTransform weight"
    using assms by simp_all
  have h2: "0 < fst (BlockSize (base\<lparr>BlockSize := b2\<rparr>))"
    "0 < snd (BlockSize (base\<lparr>BlockSize := b2\<rparr>))"
    "RasterXSize (base\<lparr>BlockSize := b2\<rparr>) = RasterXSize weight"
    "RasterYSize (base\<lparr>BlockSize := b2\<rparr>) = RasterYSize weight"
    "GeoTransform (base\<lparr>BlockSize := b2\<rparr>) = GeoTransform weight"
    using assms by simp_all
  have r1: "blend_probabilities (Some (base\<lparr>BlockSize := b1\<rparr>)) (Some weight) s n eps =
    Inr \<lparr>out_xsize = RasterXSize base, out_ysize = RasterYSize base,
         out_gt = GeoTransform base, out_proj = Projection base,
         out_nodata = NoDataValue base,
         out_cell = (\<lambda>c r. if c < RasterXSize base \<and> r < RasterYSize base
                            then Some (blend_cell base weight s n eps c r) else None),
         written = grid_tiles (RasterXSize base) (RasterYSize base) (fst b1) (snd b1)\<rparr>"
    using blend_probabilities_result [OF h1, of s n eps]
    by (simp add: blend_cell_block cong: if_cong)
  have r2: "blend_probabilities (Some (base\<lparr>BlockSize := b2\<rparr>)) (Some weight) s n eps =
    Inr \<lparr>out_xsize = RasterXSize base, out_ysize = RasterYSize base,
         out_gt = GeoTransform base, out_proj = Projection base,
         out_nodata = NoDataValue base,
         out_cell = (\<lambda>c r. if c < RasterXSize base \<and> r < RasterYSize base
                            then Some (blend_cell base weight s n eps c r) else None),
         written = grid_tiles (RasterXSize base) (RasterYSize base) (fst b2) (snd b2)\<rparr>"
    using blend_probabilities_result [OF h2, of s n eps]
    by (simp add: blend_cell_block cong: if_cong)
  have n1: "0 < nat w1" using assms(8) by simp
  have n2: "0 < nat w2" using assms(9) by simp
  show ?thesis
    unfolding r1 r2 apply_mask_result [OF assms(8)] apply_mask_result [OF assms(9)]
    by (simp add: grid_tiles_partition [OF assms(1,2)] grid_tiles_partition [OF assms(3,4)]
        grid_tiles_partition [OF n1 n1] grid_tiles_partition [OF n2 n2])
qed

theorem tiling_invariance_witness:
  "\<exists>o1 o2 m1 m2.
       blend_probabilities (Some (gappy_base\<lparr>BlockSize := (3, 2)\<rparr>)) (Some graded_weight)
         (Fl 2) (Fl (1 / 2)) (Fl (1 / 1000000)) = Inr o1
     \<and> blend_probabilities (Some (gappy_base\<lparr>BlockSize := (256, 256)\<rparr>)) (Some graded_weight)
         (Fl 2) (Fl (1 / 2)) (Fl (1 / 1000000)) = Inr o2
     \<and> out_cell o1 = out_cell o2
     \<and> (\<forall>x y. times_written (written o1) x y = (if x < 4 \<and> y < 4 then 1 else 0))
     \<and> (\<forall>x y. times_written (written o2) x y = (if x < 4 \<and> y < 4 then 1 else 0))
     \<and> apply_mask terrain_prob terrain_slope terrain_hand terrain_dist
         (Fl 10) (Fl 15) (Fl 300) 2 = Inr m1
     \<and> apply_mask terrain_prob terrain_slope terrain_hand terrain_dist
         (Fl 10) (Fl 15) (Fl 300) 1024 = Inr m2
     \<and> out_cell m1 = out_cell m2
     \<and> (\<forall>x y. times_written (written m1) x y = (if x < 3 \<and> y < 2 then 1 else 0))
     \<and> (\<forall>x y. times_written (written m2) x y = (if x < 3 \<and> y < 2 then 1 else 0))"
proof -
  have hyps: "0 < fst (3 :: nat, 2 :: nat)" "0 < snd (3 :: nat, 2 :: nat)"
    "0 < fst (256 :: nat, 256 :: nat)" "0 < snd (256 :: nat, 256 :: nat)"
    "RasterXSize gappy_base = RasterXSize graded_weight"
    "RasterYSize gappy_base = RasterYSize graded_weight"
    "GeoTransform gappy_base = GeoTransform graded_weight"
    "0 < (2 :: int)" "0 < (1024 :: int)"
    by (simp_all add: fixtures_agree)
  have sz: "RasterXSize gappy_base = 4" "RasterYSize gappy_base = 4"
    by (simp_all add: gappy_base_def)
  show ?thesis
    using tiling_invariance [OF hyps, of "Fl 2" "Fl (1 / 2)" "Fl (1 / 1000000)"
        terrain_prob terrain_slope terrain_hand terrain_dist "Fl 10" "Fl 15" "Fl 300"]
    unfolding sz terrain_sizes by blast
qed


end
